theory Spec2Isabelle
  imports Complex_Main "HOL-Library.Sublist"
begin

section \<open>The forge-vapor arcade game\<close>

text \<open>
  A shallow embedding of the game script (the enriched variant with bullets, good and
  bad bars, levels and a leaderboard) and of the baseline script \<^verbatim>\<open>game/script.js\<close>.

  Conventions of the embedding.
  \<^item> The script's global variables are the fields of the record \<open>game\<close>; every function
    of the script takes the state and returns the new one.
  \<^item> JavaScript numbers are modelled exactly: the counters \<open>score\<close>, \<open>lives\<close> and
    \<open>level\<close> are integers, coordinates and times are reals.
  \<^item> What the page and the platform supply is a parameter: the canvas size and the two
    JSON functions are the fields of \<open>env\<close>, the results of \<^verbatim>\<open>Math.random()\<close> are
    arguments of the function that draws them.
  \<^item> A \<^verbatim>\<open>return\<close> out of a loop of \<^verbatim>\<open>update\<close> is the constructor \<open>Return\<close> of
    \<open>flow\<close>, the normal end of an iteration is \<open>Next\<close>, and reading an array beyond
    its length (which makes the script throw on the following property access) is
    \<open>Throw\<close>.
  \<^item> Drawing, the DOM text nodes, particles, floating texts and the instruction banner
    do not influence the session state and are left out; of the game-over screen the
    heading text is kept, since it is what tells a victory from a defeat.
\<close>

subsection \<open>Data\<close>

record entry =
  entry_name :: string
  entry_score :: int

datatype exn = SyntaxError | TypeError

text \<open>
  The values that \<^verbatim>\<open>JSON.parse\<close> can return. What the script reads from the storage is
  such a value and need not be a leaderboard.
\<close>

datatype json =
    JNull
  | JBool bool
  | JNum real
  | JStr string
  | JArr "json list"
  | JObj "(string \<times> json) list"

type_synonym storage = "string \<rightharpoonup> string"

text \<open>
  \<open>highScoresListEl\<close> tells whether the page has the element of that name (the script
  holds \<^verbatim>\<open>null\<close> otherwise).
\<close>

record env =
  canvas_width :: real
  canvas_height :: real
  highScoresListEl :: bool
  JSON_stringify :: "entry list \<Rightarrow> string"
  JSON_parse :: "string \<Rightarrow> exn + json"

record bar =
  bar_x :: real
  bar_y :: real
  bar_width :: real
  bar_height :: real
  bar_speed :: real
  isBad :: bool

record bullet =
  bullet_x :: real
  bullet_y :: real
  bullet_width :: real
  bullet_height :: real

record player =
  player_x :: real
  player_y :: real
  player_width :: real
  player_height :: real

record game =
  highScores :: "entry list"
  localStorage :: storage
  bullets :: "bullet list"
  currentPlayerName :: string
  score :: int
  timeLeft :: real
  lives :: int
  bars :: "bar list"
  lastSpawn :: real
  lastTime :: real
  gameRunning :: bool
  keyState :: "string \<rightharpoonup> bool"
  player :: player
  level :: int
  currentSpawnInterval :: real
  gameOverHeading :: string

datatype 'a flow = Next 'a | Return 'a | Throw exn

subsection \<open>Constants\<close>

definition BULLET_WIDTH :: real where "BULLET_WIDTH = 15"
definition BULLET_HEIGHT :: real where "BULLET_HEIGHT = 15"
definition BULLET_SPEED :: real where "BULLET_SPEED = 10"
definition BAD_BAR_PROBABILITY :: real where "BAD_BAR_PROBABILITY = 0.2"
definition WIN_SCORE :: int where "WIN_SCORE = 20"
definition GAME_DURATION :: real where "GAME_DURATION = 60"
definition BAR_SPAWN_INTERVAL :: real where "BAR_SPAWN_INTERVAL = 1000"
definition PLAYER_WIDTH :: real where "PLAYER_WIDTH = 90"
definition PLAYER_HEIGHT :: real where "PLAYER_HEIGHT = 112"
definition PLAYER_SPEED :: real where "PLAYER_SPEED = 8"
definition BAR_WIDTH :: real where "BAR_WIDTH = 50"
definition BAR_HEIGHT :: real where "BAR_HEIGHT = 20"
definition INITIAL_LIVES :: int where "INITIAL_LIVES = 3"

definition PLAYER_NAMES :: "string list" where
  "PLAYER_NAMES = [''Taylor'', ''Artisan'', ''Lambo'', ''Eloquent'', ''Nova'', ''Sail'',
     ''Jetstream'', ''Breeze'', ''Valet'']"

definition storageKey :: string where
  "storageKey = ''forgeVaporHighScores''"

subsection \<open>Array primitives\<close>

text \<open>\<^verbatim>\<open>xs.splice(i, 1)\<close>: the entry at index \<open>i\<close> is removed, the later ones move down.\<close>

definition splice1 :: "nat \<Rightarrow> 'a list \<Rightarrow> 'a list" where
  "splice1 i xs = take i xs @ drop (Suc i) xs"

text \<open>
  \<^verbatim>\<open>xs.sort(cmp)\<close>: a stable sort that puts \<open>a\<close> before \<open>b\<close> when \<open>cmp a b < 0\<close> and
  keeps the order of entries that compare equal. It is an insertion sort here.
\<close>

fun insort_cmp :: "('a \<Rightarrow> 'a \<Rightarrow> int) \<Rightarrow> 'a \<Rightarrow> 'a list \<Rightarrow> 'a list" where
  "insort_cmp cmp a [] = [a]"
| "insort_cmp cmp a (b # bs) =
     (if cmp a b \<le> 0 then a # b # bs else b # insort_cmp cmp a bs)"

definition Array_sort :: "('a \<Rightarrow> 'a \<Rightarrow> int) \<Rightarrow> 'a list \<Rightarrow> 'a list" where
  "Array_sort cmp xs = foldr (insort_cmp cmp) xs []"

subsection \<open>The leaderboard\<close>

text \<open>
  The script's first statements: \<open>highScores\<close> starts as the empty array, the stored
  text is read and, when it is truthy (neither \<^verbatim>\<open>null\<close> nor the empty string), parsed;
  whatever value the parser returns is assigned. \<open>tryLoad\<close> is the body of the
  \<^verbatim>\<open>try\<close>, \<open>loadHighScores\<close> adds the \<^verbatim>\<open>catch\<close>.
\<close>

definition tryLoad :: "env \<Rightarrow> storage \<Rightarrow> exn + json" where
  "tryLoad e st =
     (case st storageKey of
        None \<Rightarrow> Inr (JArr [])
      | Some stored \<Rightarrow> if stored \<noteq> [] then JSON_parse e stored else Inr (JArr []))"

definition loadHighScores :: "env \<Rightarrow> storage \<Rightarrow> json" where
  "loadHighScores e st = (case tryLoad e st of Inl err \<Rightarrow> JArr [] | Inr v \<Rightarrow> v)"

text \<open>
  \<^verbatim>\<open>renderHighScores()\<close> on the value just loaded; the result is the exception it throws,
  if any. Without the list element it returns at once. Otherwise it calls
  \<^verbatim>\<open>highScores.forEach\<close>, which only an array has: for \<^verbatim>\<open>null\<close> the property read
  throws, for every other value that is not an array the property is not a function
  and the call throws. On an array the callback takes \<^verbatim>\<open>name\<close> and \<^verbatim>\<open>score\<close> out of
  each entry, which throws for the entry \<^verbatim>\<open>null\<close> and for no other. The list items
  it builds are left out.
\<close>

fun isArray :: "json \<Rightarrow> bool" where
  "isArray (JArr xs) = True"
| "isArray v = False"

definition renderHighScores :: "env \<Rightarrow> json \<Rightarrow> exn option" where
  "renderHighScores e v =
     (if \<not> highScoresListEl e then None
      else case v of
             JArr xs \<Rightarrow> if JNull \<in> set xs then Some TypeError else None
           | _ \<Rightarrow> Some TypeError)"

text \<open>
  The script from its first statement to the first call of \<^verbatim>\<open>renderHighScores()\<close>. An
  exception there is not caught: the script stops, and the statements after it, which
  register the handlers of the buttons, the keys and the pointer, never run.
\<close>

definition scriptStart :: "env \<Rightarrow> storage \<Rightarrow> exn + json" where
  "scriptStart e st =
     (let v = loadHighScores e st in
      case renderHighScores e v of Some x \<Rightarrow> Inl x | None \<Rightarrow> Inr v)"

definition saveHighScores :: "env \<Rightarrow> game \<Rightarrow> game" where
  "saveHighScores e s =
     s\<lparr>localStorage := (localStorage s)(storageKey \<mapsto> JSON_stringify e (highScores s))\<rparr>"

definition byScoreDesc :: "entry \<Rightarrow> entry \<Rightarrow> int" where
  "byScoreDesc a b = entry_score b - entry_score a"

definition updateHighScores :: "env \<Rightarrow> int \<Rightarrow> string \<Rightarrow> game \<Rightarrow> game" where
  "updateHighScores e newScore playerName s =
     (let hs = highScores s @ [\<lparr>entry_name = playerName, entry_score = newScore\<rparr>];
          hs = Array_sort byScoreDesc hs;
          hs = (if length hs > 5 then take 5 hs else hs)
      in saveHighScores e (s\<lparr>highScores := hs\<rparr>))"

subsection \<open>Starting and ending a session\<close>

text \<open>
  \<open>r\<close> is the result of \<^verbatim>\<open>Math.random()\<close>, \<open>now\<close> that of \<^verbatim>\<open>performance.now()\<close>.
  The index \<^verbatim>\<open>Math.floor(r * 9)\<close> is within the array for \<open>0 \<le> r < 1\<close>; beyond it the
  script reads \<^verbatim>\<open>undefined\<close>, which has no counterpart in \<open>string\<close>: the name is
  then left unchanged.
\<close>

definition startGame :: "env \<Rightarrow> real \<Rightarrow> real \<Rightarrow> game \<Rightarrow> game" where
  "startGame e r now s =
     (let k = \<lfloor>r * real (length PLAYER_NAMES)\<rfloor> in
      s\<lparr>score := 0,
        timeLeft := GAME_DURATION,
        lives := INITIAL_LIVES,
        bars := [],
        lastSpawn := 0,
        lastTime := now,
        player := (player s)\<lparr>player_x := canvas_width e / 2 - PLAYER_WIDTH / 2\<rparr>,
        currentPlayerName :=
          (if 0 \<le> k \<and> k < int (length PLAYER_NAMES) then PLAYER_NAMES ! nat k
           else currentPlayerName s),
        level := 1,
        currentSpawnInterval := BAR_SPAWN_INTERVAL,
        gameRunning := True\<rparr>)"

definition endGame :: "env \<Rightarrow> game \<Rightarrow> game" where
  "endGame e s =
     updateHighScores e (score s) (currentPlayerName s)
       (s\<lparr>gameRunning := False, gameOverHeading := ''Game Over!''\<rparr>)"

definition winGame :: "env \<Rightarrow> game \<Rightarrow> game" where
  "winGame e s =
     updateHighScores e (score s) (currentPlayerName s)
       (s\<lparr>gameRunning := False, gameOverHeading := ''You Win!''\<rparr>)"

text \<open>The two terminal states, as the script shows them.\<close>

definition isWon :: "game \<Rightarrow> bool" where
  "isWon s = (\<not> gameRunning s \<and> gameOverHeading s = ''You Win!'')"

definition isLost :: "game \<Rightarrow> bool" where
  "isLost s = (\<not> gameRunning s \<and> gameOverHeading s = ''Game Over!'')"

subsection \<open>Input handlers\<close>

definition truthy :: "(string \<rightharpoonup> bool) \<Rightarrow> string \<Rightarrow> bool" where
  "truthy ks k = (ks k = Some True)"

definition shootBullet :: "game \<Rightarrow> game" where
  "shootBullet s =
     (let bulletX = player_x (player s) + player_width (player s) / 2 - BULLET_WIDTH / 2;
          bulletY = player_y (player s) - BULLET_HEIGHT
      in s\<lparr>bullets := bullets s @
            [\<lparr>bullet_x = bulletX, bullet_y = bulletY,
              bullet_width = BULLET_WIDTH, bullet_height = BULLET_HEIGHT\<rparr>]\<rparr>)"

text \<open>
  The two \<^verbatim>\<open>keydown\<close> listeners, in the order of their registration: the first records
  the key \<^verbatim>\<open>e.key\<close>, the second fires a bullet when the session runs and the code
  \<^verbatim>\<open>e.code\<close> is that of the space bar.
\<close>

definition keydown :: "string \<Rightarrow> string \<Rightarrow> game \<Rightarrow> game" where
  "keydown k code s =
     (let s = s\<lparr>keyState := (keyState s)(k \<mapsto> True)\<rparr> in
      if \<not> gameRunning s then s
      else if code = ''Space'' then shootBullet s else s)"

definition keyup :: "string \<Rightarrow> game \<Rightarrow> game" where
  "keyup k s = s\<lparr>keyState := (keyState s)(k \<mapsto> False)\<rparr>"

text \<open>
  The two clamping statements that end the pointer handler and open \<^verbatim>\<open>update\<close>.
\<close>

definition clampPlayer :: "env \<Rightarrow> player \<Rightarrow> player" where
  "clampPlayer e p =
     (let p = (if player_x p < 0 then p\<lparr>player_x := 0\<rparr> else p) in
      if player_x p + player_width p > canvas_width e
      then p\<lparr>player_x := canvas_width e - player_width p\<rparr> else p)"

text \<open>\<open>mx\<close> is \<^verbatim>\<open>e.clientX - rect.left\<close>, the pointer's offset in the canvas.\<close>

definition mousemove :: "env \<Rightarrow> real \<Rightarrow> game \<Rightarrow> game" where
  "mousemove e mx s =
     s\<lparr>player := clampPlayer e ((player s)\<lparr>player_x := mx - player_width (player s) / 2\<rparr>)\<rparr>"

definition click :: "game \<Rightarrow> game" where
  "click s = (if \<not> gameRunning s then s else shootBullet s)"

subsection \<open>Spawning\<close>

text \<open>\<open>rx\<close> and \<open>rb\<close> are the two results of \<^verbatim>\<open>Math.random()\<close>, in the order drawn.\<close>

definition spawnBar :: "env \<Rightarrow> real \<Rightarrow> real \<Rightarrow> game \<Rightarrow> game" where
  "spawnBar e rx rb s =
     (let speed = 2 + min (real_of_int (score s) * 0.1) 5;
          x = rx * (canvas_width e - BAR_WIDTH);
          bad = (rb < BAD_BAR_PROBABILITY)
      in s\<lparr>bars := bars s @
            [\<lparr>bar_x = x, bar_y = - BAR_HEIGHT, bar_width = BAR_WIDTH,
              bar_height = BAR_HEIGHT, bar_speed = speed, isBad = bad\<rparr>]\<rparr>)"

definition spawnStep :: "env \<Rightarrow> real \<Rightarrow> real \<Rightarrow> real \<Rightarrow> game \<Rightarrow> game" where
  "spawnStep e delta rx rb s =
     (let s = s\<lparr>lastSpawn := lastSpawn s + delta\<rparr> in
      if lastSpawn s \<ge> currentSpawnInterval s
      then (spawnBar e rx rb s)\<lparr>lastSpawn := 0\<rparr> else s)"

subsection \<open>The update step\<close>

definition movePlayer :: "env \<Rightarrow> game \<Rightarrow> game" where
  "movePlayer e s =
     (let p = player s;
          p = (if truthy (keyState s) ''ArrowLeft'' \<or> truthy (keyState s) ''a''
               then p\<lparr>player_x := player_x p - PLAYER_SPEED\<rparr> else p);
          p = (if truthy (keyState s) ''ArrowRight'' \<or> truthy (keyState s) ''d''
               then p\<lparr>player_x := player_x p + PLAYER_SPEED\<rparr> else p)
      in s\<lparr>player := clampPlayer e p\<rparr>)"

definition hitsPlayer :: "bar \<Rightarrow> player \<Rightarrow> bool" where
  "hitsPlayer b p =
     (bar_x b < player_x p + player_width p \<and>
      bar_x b + bar_width b > player_x p \<and>
      bar_y b < player_y p + player_height p \<and>
      bar_y b + bar_height b > player_y p)"

definition hitsBar :: "bullet \<Rightarrow> bar \<Rightarrow> bool" where
  "hitsBar u b =
     (bullet_x u < bar_x b + bar_width b \<and>
      bullet_x u + bullet_width u > bar_x b \<and>
      bullet_y u < bar_y b + bar_height b \<and>
      bullet_y u + bullet_height u > bar_y b)"

definition fall :: "bar \<Rightarrow> bar" where
  "fall b = b\<lparr>bar_y := bar_y b + bar_speed b\<rparr>"

definition spawnInterval :: "int \<Rightarrow> real" where
  "spawnInterval lv = max 300 (BAR_SPAWN_INTERVAL - (real_of_int lv - 1) * 100)"

text \<open>The body of the loop over the bars, at index \<open>i\<close>.\<close>

definition barBody :: "env \<Rightarrow> nat \<Rightarrow> game \<Rightarrow> game flow" where
  "barBody e i s =
     (if i < length (bars s) then
        let b = fall (bars s ! i);
            s = s\<lparr>bars := (bars s)[i := b]\<rparr>
        in
          if hitsPlayer b (player s) then
            let s = s\<lparr>bars := splice1 i (bars s)\<rparr> in
            if isBad b then
              let s = s\<lparr>lives := lives s - 1\<rparr> in
              if lives s \<le> 0 then Return (endGame e s) else Next s
            else
              let s = s\<lparr>score := score s + 1\<rparr> in
              if score s \<ge> WIN_SCORE then Return (winGame e s)
              else if score s mod 5 = 0 then
                let s = s\<lparr>level := level s + 1\<rparr> in
                Next (s\<lparr>currentSpawnInterval := spawnInterval (level s)\<rparr>)
              else Next s
          else if bar_y b > canvas_height e then
            let s = s\<lparr>bars := splice1 i (bars s)\<rparr>;
                s = s\<lparr>lives := lives s - 1\<rparr>
            in if lives s \<le> 0 then Return (endGame e s) else Next s
          else Next s
      else Throw TypeError)"

text \<open>
  \<^verbatim>\<open>for (let i = bars.length - 1; i >= 0; i--)\<close>: the first argument is \<open>i + 1\<close>, the
  number of indices still to visit.
\<close>

fun barLoop :: "env \<Rightarrow> nat \<Rightarrow> game \<Rightarrow> game flow" where
  "barLoop e 0 s = Next s"
| "barLoop e (Suc i) s =
     (case barBody e i s of
        Next s' \<Rightarrow> barLoop e i s'
      | Return s' \<Rightarrow> Return s'
      | Throw x \<Rightarrow> Throw x)"

text \<open>
  The inner loop of a bullet: the bars from index \<open>i\<close> down are tested against the
  bullet \<open>u\<close> at index \<open>bi\<close>; the first hit removes both and ends the loop. The result
  carries the flag \<^verbatim>\<open>bulletRemoved\<close>.
\<close>

fun hitScan :: "nat \<Rightarrow> bullet \<Rightarrow> nat \<Rightarrow> game \<Rightarrow> (bool \<times> game) flow" where
  "hitScan bi u 0 s = Next (False, s)"
| "hitScan bi u (Suc i) s =
     (if i < length (bars s) then
        let b = bars s ! i in
        if hitsBar u b then
          let s = s\<lparr>bars := splice1 i (bars s)\<rparr>;
              s = s\<lparr>bullets := splice1 bi (bullets s)\<rparr>
          in Next (True, if isBad b then s\<lparr>lives := lives s + 1\<rparr> else s)
        else hitScan bi u i s
      else Throw TypeError)"

definition rise :: "bullet \<Rightarrow> bullet" where
  "rise u = u\<lparr>bullet_y := bullet_y u - BULLET_SPEED\<rparr>"

definition bulletBody :: "nat \<Rightarrow> game \<Rightarrow> game flow" where
  "bulletBody bi s =
     (if bi < length (bullets s) then
        let u = rise (bullets s ! bi);
            s = s\<lparr>bullets := (bullets s)[bi := u]\<rparr>
        in
          if bullet_y u + bullet_height u < 0
          then Next (s\<lparr>bullets := splice1 bi (bullets s)\<rparr>)
          else (case hitScan bi u (length (bars s)) s of
                  Next (bulletRemoved, s') \<Rightarrow> Next s'
                | Return (bulletRemoved, s') \<Rightarrow> Return s'
                | Throw x \<Rightarrow> Throw x)
      else Throw TypeError)"

fun bulletLoop :: "nat \<Rightarrow> game \<Rightarrow> game flow" where
  "bulletLoop 0 s = Next s"
| "bulletLoop (Suc bi) s =
     (case bulletBody bi s of
        Next s' \<Rightarrow> bulletLoop bi s'
      | Return s' \<Rightarrow> Return s'
      | Throw x \<Rightarrow> Throw x)"

definition timerStep :: "env \<Rightarrow> real \<Rightarrow> game \<Rightarrow> game" where
  "timerStep e delta s =
     (let s = s\<lparr>timeLeft := timeLeft s - delta / 1000\<rparr> in
      if timeLeft s \<le> 0 then endGame e (s\<lparr>timeLeft := 0\<rparr>) else s)"

text \<open>
  \<^verbatim>\<open>update(delta)\<close>. The result is \<open>Inr\<close> of the state when the function returns (from
  a loop or at its end) and \<open>Inl\<close> of the exception when it throws.
\<close>

definition update :: "env \<Rightarrow> real \<Rightarrow> real \<Rightarrow> real \<Rightarrow> game \<Rightarrow> exn + game" where
  "update e delta rx rb s =
     (let s = movePlayer e s;
          s = spawnStep e delta rx rb s
      in case barLoop e (length (bars s)) s of
           Throw x \<Rightarrow> Inl x
         | Return s' \<Rightarrow> Inr s'
         | Next s' \<Rightarrow>
             (case bulletLoop (length (bullets s')) s' of
                Throw x \<Rightarrow> Inl x
              | Return s'' \<Rightarrow> Inr s''
              | Next s'' \<Rightarrow> Inr (timerStep e delta s'')))"

definition gameLoop :: "env \<Rightarrow> real \<Rightarrow> real \<Rightarrow> real \<Rightarrow> game \<Rightarrow> exn + game" where
  "gameLoop e timestamp rx rb s =
     (if \<not> gameRunning s then Inr s
      else let delta = timestamp - lastTime s;
               s = s\<lparr>lastTime := timestamp\<rparr>
           in update e delta rx rb s)"


subsection \<open>The baseline script\<close>

text \<open>
  \<^verbatim>\<open>game/script.js\<close> is the game without bullets, bad bars, levels and leaderboard. Its
  globals are the fields of \<open>base_game\<close>; its bars have no classification. The
  clamping statements are those of the enriched script, so \<open>clampPlayer\<close> serves both.
\<close>

definition base_PLAYER_WIDTH :: real where "base_PLAYER_WIDTH = 72"
definition base_PLAYER_HEIGHT :: real where "base_PLAYER_HEIGHT = 90"
definition base_PLAYER_SPEED :: real where "base_PLAYER_SPEED = 6"
definition base_BAR_WIDTH :: real where "base_BAR_WIDTH = 40"
definition base_BAR_HEIGHT :: real where "base_BAR_HEIGHT = 16"

record base_bar =
  bb_x :: real
  bb_y :: real
  bb_width :: real
  bb_height :: real
  bb_speed :: real

record base_game =
  b_currentPlayerName :: string
  b_score :: int
  b_timeLeft :: real
  b_lives :: int
  b_bars :: "base_bar list"
  b_lastSpawn :: real
  b_lastTime :: real
  b_gameRunning :: bool
  b_keyState :: "string \<rightharpoonup> bool"
  b_player :: player

definition base_endGame :: "base_game \<Rightarrow> base_game" where
  "base_endGame s = s\<lparr>b_gameRunning := False\<rparr>"

definition base_spawnBar :: "env \<Rightarrow> real \<Rightarrow> base_game \<Rightarrow> base_game" where
  "base_spawnBar e rx s =
     (let speed = 2 + min (real_of_int (b_score s) * 0.1) 5;
          x = rx * (canvas_width e - base_BAR_WIDTH)
      in s\<lparr>b_bars := b_bars s @
            [\<lparr>bb_x = x, bb_y = - base_BAR_HEIGHT, bb_width = base_BAR_WIDTH,
              bb_height = base_BAR_HEIGHT, bb_speed = speed\<rparr>]\<rparr>)"

definition base_movePlayer :: "env \<Rightarrow> base_game \<Rightarrow> base_game" where
  "base_movePlayer e s =
     (let p = b_player s;
          p = (if truthy (b_keyState s) ''ArrowLeft'' \<or> truthy (b_keyState s) ''a''
               then p\<lparr>player_x := player_x p - base_PLAYER_SPEED\<rparr> else p);
          p = (if truthy (b_keyState s) ''ArrowRight'' \<or> truthy (b_keyState s) ''d''
               then p\<lparr>player_x := player_x p + base_PLAYER_SPEED\<rparr> else p)
      in s\<lparr>b_player := clampPlayer e p\<rparr>)"

definition base_spawnStep :: "env \<Rightarrow> real \<Rightarrow> real \<Rightarrow> base_game \<Rightarrow> base_game" where
  "base_spawnStep e delta rx s =
     (let s = s\<lparr>b_lastSpawn := b_lastSpawn s + delta\<rparr> in
      if b_lastSpawn s \<ge> BAR_SPAWN_INTERVAL
      then (base_spawnBar e rx s)\<lparr>b_lastSpawn := 0\<rparr> else s)"

definition base_hitsPlayer :: "base_bar \<Rightarrow> player \<Rightarrow> bool" where
  "base_hitsPlayer b p =
     (bb_x b < player_x p + player_width p \<and>
      bb_x b + bb_width b > player_x p \<and>
      bb_y b < player_y p + player_height p \<and>
      bb_y b + bb_height b > player_y p)"

definition base_fall :: "base_bar \<Rightarrow> base_bar" where
  "base_fall b = b\<lparr>bb_y := bb_y b + bb_speed b\<rparr>"

definition base_barBody :: "env \<Rightarrow> nat \<Rightarrow> base_game \<Rightarrow> base_game flow" where
  "base_barBody e i s =
     (if i < length (b_bars s) then
        let b = base_fall (b_bars s ! i);
            s = s\<lparr>b_bars := (b_bars s)[i := b]\<rparr>
        in
          if base_hitsPlayer b (b_player s) then
            let s = s\<lparr>b_bars := splice1 i (b_bars s)\<rparr> in
            Next (s\<lparr>b_score := b_score s + 1\<rparr>)
          else if bb_y b > canvas_height e then
            let s = s\<lparr>b_bars := splice1 i (b_bars s)\<rparr>;
                s = s\<lparr>b_lives := b_lives s - 1\<rparr>
            in if b_lives s \<le> 0 then Return (base_endGame s) else Next s
          else Next s
      else Throw TypeError)"

fun base_barLoop :: "env \<Rightarrow> nat \<Rightarrow> base_game \<Rightarrow> base_game flow" where
  "base_barLoop e 0 s = Next s"
| "base_barLoop e (Suc i) s =
     (case base_barBody e i s of
        Next s' \<Rightarrow> base_barLoop e i s'
      | Return s' \<Rightarrow> Return s'
      | Throw x \<Rightarrow> Throw x)"

definition base_timerStep :: "real \<Rightarrow> base_game \<Rightarrow> base_game" where
  "base_timerStep delta s =
     (let s = s\<lparr>b_timeLeft := b_timeLeft s - delta / 1000\<rparr> in
      if b_timeLeft s \<le> 0 then base_endGame (s\<lparr>b_timeLeft := 0\<rparr>) else s)"

definition base_update :: "env \<Rightarrow> real \<Rightarrow> real \<Rightarrow> base_game \<Rightarrow> exn + base_game" where
  "base_update e delta rx s =
     (let s = base_movePlayer e s;
          s = base_spawnStep e delta rx s
      in case base_barLoop e (length (b_bars s)) s of
           Throw x \<Rightarrow> Inl x
         | Return s' \<Rightarrow> Inr s'
         | Next s' \<Rightarrow> Inr (base_timerStep delta s'))"

subsection \<open>Properties to be established\<close>


text \<open>
  The outcome of a bar that has fallen, for a player \<open>p\<close>: it is kept when it neither
  overlaps the player nor has left the field. \<open>gain\<close> counts the good bars caught in a
  list of fallen bars, \<open>loss\<close> the bars that cost a life: the bad ones caught and the
  ones missed.
\<close>

definition kept :: "env \<Rightarrow> player \<Rightarrow> bar \<Rightarrow> bool" where
  "kept e p b = (\<not> hitsPlayer b p \<and> \<not> bar_y b > canvas_height e)"

definition gain :: "player \<Rightarrow> bar list \<Rightarrow> int" where
  "gain p bs = int (length (filter (\<lambda>b. hitsPlayer b p \<and> \<not> isBad b) bs))"

definition loss :: "env \<Rightarrow> player \<Rightarrow> bar list \<Rightarrow> int" where
  "loss e p bs =
     int (length (filter (\<lambda>b. if hitsPlayer b p then isBad b else bar_y b > canvas_height e) bs))"

text \<open>
  What the loop over the bars leaves alone or changes in one direction only, and the
  same for the loop over the bullets, which touches the two stores and \<open>lives\<close> only.
\<close>

definition barFrame :: "game \<Rightarrow> game \<Rightarrow> bool" where
  "barFrame s s' \<longleftrightarrow>
     player s' = player s \<and> bullets s' = bullets s \<and> timeLeft s' = timeLeft s \<and>
     lastSpawn s' = lastSpawn s \<and> level s \<le> level s' \<and> score s \<le> score s' \<and>
     length (bars s') \<le> length (bars s) \<and>
     (300 \<le> currentSpawnInterval s \<longrightarrow> 300 \<le> currentSpawnInterval s') \<and>
     (currentSpawnInterval s = spawnInterval (level s) \<longrightarrow>
        currentSpawnInterval s' = spawnInterval (level s') \<and>
        currentSpawnInterval s' \<le> currentSpawnInterval s)"

definition bulletFrame :: "game \<Rightarrow> game \<Rightarrow> bool" where
  "bulletFrame s s' \<longleftrightarrow>
     (\<exists>bs us l. s' = s\<lparr>bullets := us, lives := l, bars := bs\<rparr>) \<and>
     subseq (bars s') (bars s) \<and> lives s \<le> lives s' \<and>
     lives s' - lives s \<le> int (length (bars s)) - int (length (bars s')) \<and>
     int (length (bars s)) - int (length (bars s'))
       \<le> int (length (bullets s)) - int (length (bullets s'))"


subsection \<open>A concrete page for the examples\<close>

text \<open>
  A page with the list element and a canvas of 1000 by 750 pixels, and a platform whose
  parser knows three texts, the empty array, \<^verbatim>\<open>null\<close> and one leaderboard, and rejects
  every other text.
\<close>

definition demoBoard :: "entry list" where
  "demoBoard = [\<lparr>entry_name = ''Nova'', entry_score = 20\<rparr>,
                \<lparr>entry_name = ''Sail'', entry_score = 7\<rparr>]"

definition demoText :: string where
  \<open>demoText = ''[{"name":"Nova","score":20},{"name":"Sail","score":7}]''\<close>

definition demoEnv :: env where
  "demoEnv = \<lparr>canvas_width = 1000, canvas_height = 750, highScoresListEl = True,
     JSON_stringify = (\<lambda>hs. if hs = demoBoard then demoText else ''[]''),
     JSON_parse = (\<lambda>t.
       if t = demoText then
         Inr (JArr [JObj [(''name'', JStr ''Nova''), (''score'', JNum 20)],
                    JObj [(''name'', JStr ''Sail''), (''score'', JNum 7)]])
       else if t = ''[]'' then Inr (JArr [])
       else if t = ''null'' then Inr JNull
       else Inl SyntaxError)\<rparr>"

text \<open>
  The state once the script has run to its end, for a storage \<open>st\<close> from which it has
  read the leaderboard \<open>hs\<close>. The variables that the script declares without a value
  hold \<^verbatim>\<open>undefined\<close> until \<open>startGame\<close> assigns them; they are 0 here.
\<close>

definition scriptLoad :: "env \<Rightarrow> storage \<Rightarrow> entry list \<Rightarrow> game" where
  "scriptLoad e st hs =
     \<lparr>highScores = hs, localStorage = st, bullets = [],
      currentPlayerName = [], score = 0, timeLeft = 0, lives = 0, bars = [],
      lastSpawn = 0, lastTime = 0, gameRunning = False, keyState = Map.empty,
      player = \<lparr>player_x = canvas_width e / 2 - PLAYER_WIDTH / 2,
                player_y = canvas_height e - PLAYER_HEIGHT - 20,
                player_width = PLAYER_WIDTH, player_height = PLAYER_HEIGHT\<rparr>,
      level = 0, currentSpawnInterval = 0, gameOverHeading = []\<rparr>"

definition demoGame :: game where
  "demoGame = startGame demoEnv 0.5 0 (scriptLoad demoEnv Map.empty [])"

definition base_demoGame :: base_game where
  "base_demoGame =
     \<lparr>b_currentPlayerName = ''Nova'', b_score = 0, b_timeLeft = 60, b_lives = 3,
      b_bars = [], b_lastSpawn = 0, b_lastTime = 0, b_gameRunning = True,
      b_keyState = Map.empty,
      b_player = \<lparr>player_x = 464, player_y = 640,
                  player_width = base_PLAYER_WIDTH, player_height = base_PLAYER_HEIGHT\<rparr>\<rparr>"

text \<open>
  Bars for the examples, placed for the player of \<open>demoGame\<close>, who occupies the
  rectangle from (455, 618) to (545, 730): \<open>goodBar\<close> and \<open>badBar\<close> fall onto the
  player, \<open>lowBar\<close> leaves the field with its next move, \<open>highBar\<close> is far from both.
\<close>

definition goodBar :: bar where
  "goodBar = \<lparr>bar_x = 460, bar_y = 650, bar_width = 50, bar_height = 20,
               bar_speed = 2, isBad = False\<rparr>"

definition badBar :: bar where
  "badBar = \<lparr>bar_x = 460, bar_y = 650, bar_width = 50, bar_height = 20,
              bar_speed = 2, isBad = True\<rparr>"

definition lowBar :: bar where
  "lowBar = \<lparr>bar_x = 0, bar_y = 749, bar_width = 50, bar_height = 20,
              bar_speed = 2, isBad = False\<rparr>"

definition highBar :: bar where
  "highBar = \<lparr>bar_x = 100, bar_y = 10, bar_width = 50, bar_height = 20,
               bar_speed = 2, isBad = True\<rparr>"

text \<open>
  A bar of the baseline script about to leave the field, and a bullet that overlaps
  \<open>goodBar\<close> and \<open>badBar\<close> once it has risen.
\<close>

definition base_lowBar :: base_bar where
  "base_lowBar = \<lparr>bb_x = 0, bb_y = 749, bb_width = 40, bb_height = 16, bb_speed = 2\<rparr>"

definition demoBullet :: bullet where
  "demoBullet = \<lparr>bullet_x = 480, bullet_y = 665, bullet_width = 15, bullet_height = 15\<rparr>"

section \<open>State changes of the update step\<close>

subsection \<open>Ending a session\<close>

lemma updateHighScores_fields [simp]:
  "score (updateHighScores e n p s) = score s"
  "lives (updateHighScores e n p s) = lives s"
  "level (updateHighScores e n p s) = level s"
  "bars (updateHighScores e n p s) = bars s"
  "bullets (updateHighScores e n p s) = bullets s"
  "player (updateHighScores e n p s) = player s"
  "timeLeft (updateHighScores e n p s) = timeLeft s"
  "lastSpawn (updateHighScores e n p s) = lastSpawn s"
  "gameRunning (updateHighScores e n p s) = gameRunning s"
  "gameOverHeading (updateHighScores e n p s) = gameOverHeading s"
  "currentSpawnInterval (updateHighScores e n p s) = currentSpawnInterval s"
  by (simp_all add: updateHighScores_def saveHighScores_def Let_def)

lemma endGame_fields [simp]:
  "score (endGame e s) = score s"
  "lives (endGame e s) = lives s"
  "level (endGame e s) = level s"
  "bars (endGame e s) = bars s"
  "bullets (endGame e s) = bullets s"
  "player (endGame e s) = player s"
  "timeLeft (endGame e s) = timeLeft s"
  "lastSpawn (endGame e s) = lastSpawn s"
  "gameRunning (endGame e s) = False"
  "gameOverHeading (endGame e s) = ''Game Over!''"
  "currentSpawnInterval (endGame e s) = currentSpawnInterval s"
  by (simp_all add: endGame_def)

lemma winGame_fields [simp]:
  "score (winGame e s) = score s"
  "lives (winGame e s) = lives s"
  "level (winGame e s) = level s"
  "bars (winGame e s) = bars s"
  "bullets (winGame e s) = bullets s"
  "player (winGame e s) = player s"
  "timeLeft (winGame e s) = timeLeft s"
  "lastSpawn (winGame e s) = lastSpawn s"
  "gameRunning (winGame e s) = False"
  "gameOverHeading (winGame e s) = ''You Win!''"
  "currentSpawnInterval (winGame e s) = currentSpawnInterval s"
  by (simp_all add: winGame_def)

lemma isWon_endGame [simp]: "\<not> isWon (endGame e s)" "isLost (endGame e s)"
  by (simp_all add: isWon_def isLost_def)

lemma isWon_winGame [simp]: "isWon (winGame e s)" "\<not> isLost (winGame e s)"
  by (simp_all add: isWon_def isLost_def)

lemma splice1_update [simp]: "splice1 i (xs[i := x]) = splice1 i xs"
  by (simp add: splice1_def)

lemma length_splice1: "i < length xs \<Longrightarrow> length (splice1 i xs) = length xs - 1"
  by (simp add: splice1_def)

lemma isBad_fall [simp]: "isBad (fall b) = isBad b"
  by (simp add: fall_def)

subsection \<open>The loop over the bars\<close>

lemma barBody_Throw: "i < length (bars s) \<Longrightarrow> barBody e i s \<noteq> Throw x"
  by (simp add: barBody_def Let_def)

lemma barBody_Next_length:
  "barBody e i s = Next s' \<Longrightarrow> i \<le> length (bars s')"
  by (auto simp: barBody_def Let_def length_splice1 split: if_splits)

lemma barLoop_no_Throw: "n \<le> length (bars s) \<Longrightarrow> barLoop e n s \<noteq> Throw x"
proof (induction n arbitrary: s)
  case 0
  show ?case by simp
next
  case (Suc n)
  then have "n < length (bars s)" by simp
  then have nt: "barBody e n s \<noteq> Throw x" for x by (rule barBody_Throw)
  show ?case
  proof (cases "barBody e n s")
    case (Next s')
    then have "n \<le> length (bars s')" by (rule barBody_Next_length)
    with Suc.IH Next show ?thesis by simp
  next
    case (Return s')
    then show ?thesis by simp
  next
    case (Throw y)
    with nt show ?thesis by simp
  qed
qed

lemma barLoop_rel:
  assumes step: "\<And>i s s'. barBody e i s = Next s' \<or> barBody e i s = Return s' \<Longrightarrow> R s s'"
    and refl: "\<And>s. R s s"
    and trans: "\<And>a b c. R a b \<Longrightarrow> R b c \<Longrightarrow> R a c"
  shows "barLoop e n s = Next s' \<or> barLoop e n s = Return s' \<Longrightarrow> R s s'"
proof (induction n arbitrary: s)
  case 0
  then show ?case using refl by auto
next
  case (Suc n)
  show ?case
  proof (cases "barBody e n s")
    case (Next t)
    then have "R s t" using step by blast
    moreover have "R t s'" using Suc.IH [of t] Suc.prems Next by simp
    ultimately show ?thesis by (rule trans)
  next
    case (Return t)
    with Suc.prems have "t = s'" by simp
    with Return step show ?thesis by blast
  next
    case (Throw y)
    with Suc.prems show ?thesis by simp
  qed
qed

lemma spawnInterval_floor: "300 \<le> spawnInterval l"
  by (simp add: spawnInterval_def)

lemma spawnInterval_antimono: "l \<le> l' \<Longrightarrow> spawnInterval l' \<le> spawnInterval l"
  by (simp add: spawnInterval_def max_def)

lemma barBody_frame:
  "barBody e i s = Next s' \<or> barBody e i s = Return s' \<Longrightarrow> barFrame s s'"
  by (auto simp: barBody_def Let_def barFrame_def length_splice1 spawnInterval_floor
           spawnInterval_antimono split: if_splits)

lemma barLoop_frame:
  "barLoop e n s = Next s' \<or> barLoop e n s = Return s' \<Longrightarrow> barFrame s s'"
proof (rule barLoop_rel [where R = barFrame])
  show "barBody e i s = Next s' \<or> barBody e i s = Return s' \<Longrightarrow> barFrame s s'" for i s s'
    by (rule barBody_frame)
  show "barFrame s s" for s by (simp add: barFrame_def)
  show "barFrame a b \<Longrightarrow> barFrame b c \<Longrightarrow> barFrame a c" for a b c
    by (auto simp: barFrame_def)
qed


subsection \<open>The loop over the bullets\<close>

lemma subseq_splice1: "subseq (splice1 i xs) xs"
proof -
  have "subseq (take i xs @ drop (Suc i) xs) (take i xs @ drop i xs)"
    by (cases "i < length xs") (auto simp: subseq_append' Cons_nth_drop_Suc [symmetric])
  then show ?thesis by (simp add: splice1_def)
qed

lemma hitScan_result:
  "n \<le> length (bars s) \<Longrightarrow>
   (hitScan bi u n s = Next (False, s) \<and> (\<forall>j<n. \<not> hitsBar u (bars s ! j))) \<or>
   (\<exists>i<n. hitsBar u (bars s ! i) \<and> (\<forall>j. i < j \<and> j < n \<longrightarrow> \<not> hitsBar u (bars s ! j)) \<and>
      hitScan bi u n s =
        Next (True, s\<lparr>bars := splice1 i (bars s), bullets := splice1 bi (bullets s),
                      lives := (if isBad (bars s ! i) then lives s + 1 else lives s)\<rparr>))"
proof (induction n)
  case 0
  show ?case by simp
next
  case (Suc n)
  then have n: "n < length (bars s)" by simp
  show ?case
  proof (cases "hitsBar u (bars s ! n)")
    case True
    with n have "hitScan bi u (Suc n) s =
        Next (True, s\<lparr>bars := splice1 n (bars s), bullets := splice1 bi (bullets s),
                      lives := (if isBad (bars s ! n) then lives s + 1 else lives s)\<rparr>)"
      by (simp add: Let_def)
    moreover have "\<forall>j. n < j \<and> j < Suc n \<longrightarrow> \<not> hitsBar u (bars s ! j)" by auto
    ultimately show ?thesis using True
      by (intro disjI2 exI [of _ n]) (simp del: hitScan.simps)
  next
    case False
    with n have eq: "hitScan bi u (Suc n) s = hitScan bi u n s" by (simp add: Let_def)
    from Suc.IH n consider
      (none) "hitScan bi u n s = Next (False, s)" "\<forall>j<n. \<not> hitsBar u (bars s ! j)"
    | (hit) i where "i < n" "hitsBar u (bars s ! i)"
        "\<forall>j. i < j \<and> j < n \<longrightarrow> \<not> hitsBar u (bars s ! j)"
        "hitScan bi u n s =
          Next (True, s\<lparr>bars := splice1 i (bars s), bullets := splice1 bi (bullets s),
                      lives := (if isBad (bars s ! i) then lives s + 1 else lives s)\<rparr>)"
      by auto
    then show ?thesis
    proof cases
      case none
      with False eq show ?thesis by (intro disjI1) (simp add: less_Suc_eq del: hitScan.simps)
    next
      case hit
      have "\<forall>j. i < j \<and> j < Suc n \<longrightarrow> \<not> hitsBar u (bars s ! j)"
        using hit(3) False by (auto simp: less_Suc_eq)
      with hit eq show ?thesis
        by (intro disjI2 exI [of _ i]) (simp add: less_Suc_eq del: hitScan.simps)
    qed
  qed
qed

lemma bulletFrame_refl: "bulletFrame s s"
proof -
  have "\<exists>bs us l. s = s\<lparr>bullets := us, lives := l, bars := bs\<rparr>"
    by (intro exI [of _ "bars s"] exI [of _ "bullets s"] exI [of _ "lives s"]) simp
  then show ?thesis unfolding bulletFrame_def by simp
qed

lemma bulletFrame_hit:
  assumes "i < length (bars s)" and "bi < length (bullets s)"
  shows "bulletFrame s (s\<lparr>bars := splice1 i (bars s), bullets := splice1 bi (bullets s),
                      lives := (if isBad (bars s ! i) then lives s + 1 else lives s)\<rparr>)"
proof -
  have "\<exists>bs us l. s\<lparr>bars := splice1 i (bars s), bullets := splice1 bi (bullets s),
                      lives := (if isBad (bars s ! i) then lives s + 1 else lives s)\<rparr>
           = s\<lparr>bullets := us, lives := l, bars := bs\<rparr>"
    by (intro exI [of _ "splice1 i (bars s)"] exI [of _ "splice1 bi (bullets s)"]
            exI [of _ "if isBad (bars s ! i) then lives s + 1 else lives s"]) simp
  then show ?thesis
    unfolding bulletFrame_def using assms
    by (simp add: subseq_splice1 length_splice1)
qed

lemma hitScan_frame:
  assumes "n \<le> length (bars s)" and "bi < length (bullets s)"
  shows "\<exists>r s'. hitScan bi u n s = Next (r, s') \<and> bulletFrame s s' \<and>
           length (bullets s') \<ge> length (bullets s) - 1"
proof -
  from hitScan_result [OF assms(1), of bi u] show ?thesis
  proof
    assume "hitScan bi u n s = Next (False, s) \<and> (\<forall>j<n. \<not> hitsBar u (bars s ! j))"
    then have "hitScan bi u n s = Next (False, s)" by simp
    with bulletFrame_refl [of s] show ?thesis by auto
  next
    assume "\<exists>i<n. hitsBar u (bars s ! i) \<and> (\<forall>j. i < j \<and> j < n \<longrightarrow> \<not> hitsBar u (bars s ! j)) \<and>
      hitScan bi u n s =
        Next (True, s\<lparr>bars := splice1 i (bars s), bullets := splice1 bi (bullets s),
                      lives := (if isBad (bars s ! i) then lives s + 1 else lives s)\<rparr>)"
    then obtain i where i: "i < n" and
      eq: "hitScan bi u n s =
        Next (True, s\<lparr>bars := splice1 i (bars s), bullets := splice1 bi (bullets s),
                      lives := (if isBad (bars s ! i) then lives s + 1 else lives s)\<rparr>)"
      by blast
    from i assms have il: "i < length (bars s)" by simp
    have "length (bullets (s\<lparr>bars := splice1 i (bars s), bullets := splice1 bi (bullets s),
                      lives := (if isBad (bars s ! i) then lives s + 1 else lives s)\<rparr>))
          \<ge> length (bullets s) - 1"
      using assms(2) by (simp add: length_splice1)
    with bulletFrame_hit [OF il assms(2)] eq show ?thesis
      by blast
  qed
qed


lemma bulletFrame_trans:
  assumes "bulletFrame a b" and "bulletFrame b c"
  shows "bulletFrame a c"
proof -
  from assms(1) obtain bs us l where b: "b = a\<lparr>bullets := us, lives := l, bars := bs\<rparr>"
    unfolding bulletFrame_def by blast
  from assms(2) obtain bs' us' l' where c: "c = b\<lparr>bullets := us', lives := l', bars := bs'\<rparr>"
    unfolding bulletFrame_def by blast
  have "c = a\<lparr>bullets := us', lives := l', bars := bs'\<rparr>"
    unfolding c b by simp
  then have ex: "\<exists>bs us l. c = a\<lparr>bullets := us, lives := l, bars := bs\<rparr>" by blast
  have sub: "subseq (bars c) (bars a)"
    using assms unfolding bulletFrame_def by (meson subseq_order.trans)
  have ar: "lives a \<le> lives c"
      "lives c - lives a \<le> int (length (bars a)) - int (length (bars c))"
      "int (length (bars a)) - int (length (bars c))
         \<le> int (length (bullets a)) - int (length (bullets c))"
    using assms unfolding bulletFrame_def by linarith+
  from ex sub ar show ?thesis unfolding bulletFrame_def by blast
qed

lemma bulletFrame_move:
  assumes "bi < length (bullets s)"
  shows "bulletFrame s (s\<lparr>bullets := (bullets s)[bi := u]\<rparr>)"
proof -
  have "\<exists>bs us l. s\<lparr>bullets := (bullets s)[bi := u]\<rparr> = s\<lparr>bullets := us, lives := l, bars := bs\<rparr>"
    by (intro exI [of _ "bars s"] exI [of _ "(bullets s)[bi := u]"] exI [of _ "lives s"]) simp
  then show ?thesis unfolding bulletFrame_def by simp
qed

lemma bulletFrame_drop:
  assumes "bi < length (bullets s)"
  shows "bulletFrame s (s\<lparr>bullets := splice1 bi (bullets s)\<rparr>)"
proof -
  have "\<exists>bs us l. s\<lparr>bullets := splice1 bi (bullets s)\<rparr> = s\<lparr>bullets := us, lives := l, bars := bs\<rparr>"
    by (intro exI [of _ "bars s"] exI [of _ "splice1 bi (bullets s)"] exI [of _ "lives s"]) simp
  then show ?thesis unfolding bulletFrame_def using assms by (simp add: length_splice1)
qed

lemma bulletBody_frame:
  assumes bi: "bi < length (bullets s)"
  shows "\<exists>s'. bulletBody bi s = Next s' \<and> bulletFrame s s' \<and> bi \<le> length (bullets s')"
proof -
  define u where "u = rise (bullets s ! bi)"
  define s1 where "s1 = s\<lparr>bullets := (bullets s)[bi := u]\<rparr>"
  show ?thesis
  proof (cases "bullet_y u + bullet_height u < 0")
    case True
    with bi have "bulletBody bi s = Next (s\<lparr>bullets := splice1 bi (bullets s)\<rparr>)"
      by (simp add: bulletBody_def Let_def u_def)
    with bulletFrame_drop [OF bi] bi show ?thesis by (simp add: length_splice1)
  next
    case False
    have b1: "bi < length (bullets s1)" using bi by (simp add: s1_def)
    from hitScan_frame [of "length (bars s1)" s1 bi u, OF _ b1]
    obtain r s' where h: "hitScan bi u (length (bars s1)) s1 = Next (r, s')"
      and f: "bulletFrame s1 s'" and l: "length (bullets s1) - 1 \<le> length (bullets s')"
      by auto
    from bi False have "bulletBody bi s =
        (case hitScan bi u (length (bars s1)) s1 of
           Next (bulletRemoved, s') \<Rightarrow> Next s'
         | Return (bulletRemoved, s') \<Rightarrow> Return s'
         | Throw x \<Rightarrow> Throw x)"
      by (simp add: bulletBody_def Let_def u_def s1_def)
    with h have eq: "bulletBody bi s = Next s'" by simp
    have "bulletFrame s s1" unfolding s1_def by (rule bulletFrame_move [OF bi])
    from this f have "bulletFrame s s'" by (rule bulletFrame_trans)
    moreover have "bi \<le> length (bullets s')" using l bi by (simp add: s1_def)
    ultimately show ?thesis using eq by blast
  qed
qed

lemma bulletLoop_frame:
  "n \<le> length (bullets s) \<Longrightarrow> \<exists>s'. bulletLoop n s = Next s' \<and> bulletFrame s s'"
proof (induction n arbitrary: s)
  case 0
  show ?case by (simp add: bulletFrame_refl)
next
  case (Suc n)
  then have "n < length (bullets s)" by simp
  from bulletBody_frame [OF this] obtain t where
    t: "bulletBody n s = Next t" "bulletFrame s t" "n \<le> length (bullets t)" by blast
  from Suc.IH [OF t(3)] obtain s' where s': "bulletLoop n t = Next s'" "bulletFrame t s'"
    by blast
  from t(2) s'(2) have "bulletFrame s s'" by (rule bulletFrame_trans)
  with t(1) s'(1) show ?case by simp
qed


subsection \<open>The loop over the bars as one pass\<close>

lemma gain_append: "gain p (xs @ ys) = gain p xs + gain p ys"
  by (simp add: gain_def)

lemma loss_append: "loss e p (xs @ ys) = loss e p xs + loss e p ys"
  by (simp add: loss_def)

lemma barBody_at:
  assumes "bars s = pre @ b # suf"
  shows "(barBody e (length pre) s = Next t \<longrightarrow>
            bars t = pre @ filter (kept e (player s)) [fall b] @ suf \<and>
            score t = score s + gain (player s) [fall b] \<and>
            lives t = lives s - loss e (player s) [fall b] \<and> player t = player s) \<and>
         (barBody e (length pre) s = Return t \<longrightarrow>
            \<not> kept e (player s) (fall b) \<and> bars t = pre @ suf \<and>
            score t = score s + gain (player s) [fall b] \<and>
            lives t = lives s - loss e (player s) [fall b] \<and> player t = player s)"
  using assms
  by (auto simp: barBody_def Let_def splice1_def kept_def gain_def loss_def
           split: if_splits)

lemma barLoop_pass:
  "bars s = pre @ suf \<Longrightarrow>
   (barLoop e (length pre) s = Next s' \<longrightarrow>
      bars s' = filter (kept e (player s)) (map fall pre) @ suf \<and>
      score s' = score s + gain (player s) (map fall pre) \<and>
      lives s' = lives s - loss e (player s) (map fall pre) \<and> player s' = player s) \<and>
   (barLoop e (length pre) s = Return s' \<longrightarrow>
      (\<exists>k<length pre. \<not> kept e (player s) (fall (pre ! k)) \<and>
         bars s' = take k pre @ filter (kept e (player s)) (map fall (drop (Suc k) pre)) @ suf \<and>
         score s' = score s + gain (player s) (map fall (drop k pre)) \<and>
         lives s' = lives s - loss e (player s) (map fall (drop k pre)) \<and>
         player s' = player s))"
proof (induction pre arbitrary: s suf rule: rev_induct)
  case Nil
  then show ?case by (auto simp: gain_def loss_def)
next
  case (snoc b pre)
  have bs: "bars s = pre @ b # suf" using snoc.prems by simp
  note at = barBody_at [OF bs, where e = e]
  have loop: "barLoop e (length (pre @ [b])) s =
      (case barBody e (length pre) s of Next t \<Rightarrow> barLoop e (length pre) t
       | Return t \<Rightarrow> Return t | Throw x \<Rightarrow> Throw x)"
    by simp
  show ?case
  proof (cases "barBody e (length pre) s")
    case (Next t)
    with at have t: "bars t = pre @ (filter (kept e (player s)) [fall b] @ suf)"
      "score t = score s + gain (player s) [fall b]"
      "lives t = lives s - loss e (player s) [fall b]" "player t = player s"
      by simp_all
    from loop Next have eq: "barLoop e (length (pre @ [b])) s = barLoop e (length pre) t"
      by simp
    note IH = snoc.IH [OF t(1)]
    show ?thesis
    proof (rule conjI [OF impI impI])
      assume "barLoop e (length (pre @ [b])) s = Next s'"
      with eq IH t
      show "bars s' = filter (kept e (player s)) (map fall (pre @ [b])) @ suf \<and>
        score s' = score s + gain (player s) (map fall (pre @ [b])) \<and>
        lives s' = lives s - loss e (player s) (map fall (pre @ [b])) \<and> player s' = player s"
        by (simp add: gain_append loss_append)
    next
      assume "barLoop e (length (pre @ [b])) s = Return s'"
      with eq IH t obtain k where k: "k < length pre"
        "\<not> kept e (player s) (fall (pre ! k))"
        "bars s' = take k pre @ filter (kept e (player s)) (map fall (drop (Suc k) pre)) @
            filter (kept e (player s)) [fall b] @ suf"
        "score s' = score s + gain (player s) [fall b] + gain (player s) (map fall (drop k pre))"
        "lives s' = lives s - loss e (player s) [fall b] - loss e (player s) (map fall (drop k pre))"
        "player s' = player s"
        by auto
      show "\<exists>k<length (pre @ [b]). \<not> kept e (player s) (fall ((pre @ [b]) ! k)) \<and>
         bars s' = take k (pre @ [b]) @
           filter (kept e (player s)) (map fall (drop (Suc k) (pre @ [b]))) @ suf \<and>
         score s' = score s + gain (player s) (map fall (drop k (pre @ [b]))) \<and>
         lives s' = lives s - loss e (player s) (map fall (drop k (pre @ [b]))) \<and>
         player s' = player s"
        using k by (intro exI [of _ k]) (simp add: nth_append gain_append loss_append)
    qed
  next
    case (Return t)
    with loop have eq: "barLoop e (length (pre @ [b])) s = Return t" by simp
    from Return at have t: "\<not> kept e (player s) (fall b)" "bars t = pre @ suf"
      "score t = score s + gain (player s) [fall b]"
      "lives t = lives s - loss e (player s) [fall b]" "player t = player s"
      by simp_all
    show ?thesis
    proof (rule conjI [OF impI impI])
      assume "barLoop e (length (pre @ [b])) s = Next s'"
      with eq show "bars s' = filter (kept e (player s)) (map fall (pre @ [b])) @ suf \<and>
        score s' = score s + gain (player s) (map fall (pre @ [b])) \<and>
        lives s' = lives s - loss e (player s) (map fall (pre @ [b])) \<and> player s' = player s"
        by simp
    next
      assume "barLoop e (length (pre @ [b])) s = Return s'"
      with eq have "s' = t" by simp
      with t show "\<exists>k<length (pre @ [b]). \<not> kept e (player s) (fall ((pre @ [b]) ! k)) \<and>
         bars s' = take k (pre @ [b]) @
           filter (kept e (player s)) (map fall (drop (Suc k) (pre @ [b]))) @ suf \<and>
         score s' = score s + gain (player s) (map fall (drop k (pre @ [b]))) \<and>
         lives s' = lives s - loss e (player s) (map fall (drop k (pre @ [b]))) \<and>
         player s' = player s"
        by (intro exI [of _ "length pre"]) simp
    qed
  next
    case (Throw x)
    with loop show ?thesis by simp
  qed
qed


subsection \<open>The whole step\<close>

lemma timerStep_fields [simp]:
  "player (timerStep e d s) = player s"
  "score (timerStep e d s) = score s"
  "lives (timerStep e d s) = lives s"
  "level (timerStep e d s) = level s"
  "bars (timerStep e d s) = bars s"
  "bullets (timerStep e d s) = bullets s"
  "lastSpawn (timerStep e d s) = lastSpawn s"
  "currentSpawnInterval (timerStep e d s) = currentSpawnInterval s"
  by (simp_all add: timerStep_def Let_def)

lemma bulletFrame_fields:
  assumes "bulletFrame s s'"
  shows "player s' = player s" "score s' = score s" "level s' = level s"
    "timeLeft s' = timeLeft s" "lastSpawn s' = lastSpawn s"
    "gameRunning s' = gameRunning s" "gameOverHeading s' = gameOverHeading s"
    "currentSpawnInterval s' = currentSpawnInterval s"
proof -
  from assms obtain bs us l where "s' = s\<lparr>bullets := us, lives := l, bars := bs\<rparr>"
    unfolding bulletFrame_def by blast
  then show "player s' = player s" "score s' = score s" "level s' = level s"
    "timeLeft s' = timeLeft s" "lastSpawn s' = lastSpawn s"
    "gameRunning s' = gameRunning s" "gameOverHeading s' = gameOverHeading s"
    "currentSpawnInterval s' = currentSpawnInterval s"
    by simp_all
qed

lemma update_cases [case_names ended ticked]:
  obtains (ended) s' where
      "barLoop e (length (bars (spawnStep e delta rx rb (movePlayer e s))))
         (spawnStep e delta rx rb (movePlayer e s)) = Return s'"
      "update e delta rx rb s = Inr s'"
  | (ticked) s2 s3 where
      "barLoop e (length (bars (spawnStep e delta rx rb (movePlayer e s))))
         (spawnStep e delta rx rb (movePlayer e s)) = Next s2"
      "bulletLoop (length (bullets s2)) s2 = Next s3"
      "bulletFrame s2 s3"
      "update e delta rx rb s = Inr (timerStep e delta s3)"
proof -
  define s1 where "s1 = spawnStep e delta rx rb (movePlayer e s)"
  have nt: "barLoop e (length (bars s1)) s1 \<noteq> Throw x" for x
    by (rule barLoop_no_Throw) simp
  show ?thesis
  proof (cases "barLoop e (length (bars s1)) s1")
    case (Next s2)
    from bulletLoop_frame [of "length (bullets s2)" s2]
    obtain s3 where s3: "bulletLoop (length (bullets s2)) s2 = Next s3" "bulletFrame s2 s3"
      by auto
    have "update e delta rx rb s = Inr (timerStep e delta s3)"
      using Next s3(1) by (simp add: update_def Let_def s1_def [symmetric])
    with Next s3 show ?thesis using ticked unfolding s1_def by blast
  next
    case (Return s')
    then have "update e delta rx rb s = Inr s'"
      by (simp add: update_def Let_def s1_def [symmetric])
    with Return show ?thesis using ended unfolding s1_def by blast
  next
    case (Throw x)
    with nt [of x] show ?thesis by simp
  qed
qed

lemma spawnStep_player [simp]: "player (spawnStep e delta rx rb s) = player s"
  by (simp add: spawnStep_def spawnBar_def Let_def)

lemma clampPlayer_range:
  assumes "player_width p \<le> canvas_width e"
  shows "0 \<le> player_x (clampPlayer e p)"
    "player_x (clampPlayer e p) \<le> canvas_width e - player_width (clampPlayer e p)"
    "player_width (clampPlayer e p) = player_width p"
  using assms by (auto simp: clampPlayer_def Let_def)

lemma update_player:
  "\<exists>s'. update e delta rx rb s = Inr s' \<and> player s' = player (movePlayer e s)"
proof (cases rule: update_cases [of e delta rx rb s])
  case (ended s')
  from barLoop_frame [of e _ _ s'] ended(1) have "barFrame (spawnStep e delta rx rb (movePlayer e s)) s'"
    by blast
  then have "player s' = player (movePlayer e s)" by (simp add: barFrame_def)
  with ended(2) show ?thesis by simp
next
  case (ticked s2 s3)
  from barLoop_frame [of e _ _ s2] ticked(1) have "barFrame (spawnStep e delta rx rb (movePlayer e s)) s2"
    by blast
  then have "player s2 = player (movePlayer e s)" by (simp add: barFrame_def)
  with bulletFrame_fields(1) [OF ticked(3)] ticked(4) show ?thesis by simp
qed


lemma movePlayer_fields [simp]:
  "lastSpawn (movePlayer e s) = lastSpawn s"
  "currentSpawnInterval (movePlayer e s) = currentSpawnInterval s"
  "bars (movePlayer e s) = bars s"
  "score (movePlayer e s) = score s"
  "lives (movePlayer e s) = lives s"
  "level (movePlayer e s) = level s"
  "timeLeft (movePlayer e s) = timeLeft s"
  "gameRunning (movePlayer e s) = gameRunning s"
  "bullets (movePlayer e s) = bullets s"
  by (simp_all add: movePlayer_def Let_def)

lemma update_spawn:
  "\<exists>s'. update e delta rx rb s = Inr s' \<and>
     lastSpawn s' = lastSpawn (spawnStep e delta rx rb s) \<and>
     length (bars s') \<le> length (bars (spawnStep e delta rx rb s))"
proof -
  have sp: "lastSpawn (spawnStep e delta rx rb (movePlayer e s)) = lastSpawn (spawnStep e delta rx rb s)"
    "length (bars (spawnStep e delta rx rb (movePlayer e s))) = length (bars (spawnStep e delta rx rb s))"
    by (simp_all add: spawnStep_def spawnBar_def Let_def)
  show ?thesis
  proof (cases rule: update_cases [of e delta rx rb s])
    case (ended s')
    from barLoop_frame [of e _ _ s'] ended(1)
    have "barFrame (spawnStep e delta rx rb (movePlayer e s)) s'" by blast
    with sp ended(2) show ?thesis by (simp add: barFrame_def)
  next
    case (ticked s2 s3)
    from barLoop_frame [of e _ _ s2] ticked(1)
    have "barFrame (spawnStep e delta rx rb (movePlayer e s)) s2" by blast
    moreover have "length (bars s3) \<le> length (bars s2)"
      using ticked(3) unfolding bulletFrame_def by (meson list_emb_length)
    ultimately show ?thesis
      using sp ticked(4) bulletFrame_fields(5) [OF ticked(3)] by (simp add: barFrame_def)
  qed
qed

subsection \<open>The baseline step\<close>

lemma base_barBody_cases:
  assumes "i < length (b_bars s)"
  shows "\<exists>s'. (base_barBody e i s = Next s' \<and> i \<le> length (b_bars s') \<or>
               base_barBody e i s = Return s') \<and> b_player s' = b_player s"
  using assms
  by (auto simp: base_barBody_def Let_def base_endGame_def length_splice1)

lemma base_barLoop_player:
  "n \<le> length (b_bars s) \<Longrightarrow>
   \<exists>s'. (base_barLoop e n s = Next s' \<or> base_barLoop e n s = Return s') \<and>
        b_player s' = b_player s"
proof (induction n arbitrary: s)
  case 0
  show ?case by simp
next
  case (Suc n)
  then have "n < length (b_bars s)" by simp
  from base_barBody_cases [OF this, of e] obtain t where
    t: "base_barBody e n s = Next t \<and> n \<le> length (b_bars t) \<or> base_barBody e n s = Return t"
      "b_player t = b_player s"
    by blast
  from t(1) show ?case
  proof
    assume a: "base_barBody e n s = Next t \<and> n \<le> length (b_bars t)"
    with Suc.IH [of t] obtain s' where
      "base_barLoop e n t = Next s' \<or> base_barLoop e n t = Return s'" "b_player s' = b_player t"
      by blast
    with a t(2) show ?thesis by auto
  next
    assume "base_barBody e n s = Return t"
    with t(2) show ?thesis by auto
  qed
qed

lemma base_timerStep_player [simp]: "b_player (base_timerStep d s) = b_player s"
  by (simp add: base_timerStep_def Let_def base_endGame_def)

lemma base_spawnStep_player [simp]: "b_player (base_spawnStep e d rx s) = b_player s"
  by (simp add: base_spawnStep_def base_spawnBar_def Let_def)

lemma base_update_player:
  "\<exists>s'. base_update e delta rx s = Inr s' \<and> b_player s' = b_player (base_movePlayer e s)"
proof -
  define s1 where "s1 = base_spawnStep e delta rx (base_movePlayer e s)"
  from base_barLoop_player [of "length (b_bars s1)" s1 e] obtain s' where
    s': "base_barLoop e (length (b_bars s1)) s1 = Next s' \<or>
         base_barLoop e (length (b_bars s1)) s1 = Return s'" "b_player s' = b_player s1"
    by auto
  have p1: "b_player s1 = b_player (base_movePlayer e s)" by (simp add: s1_def)
  from s'(1) show ?thesis
  proof
    assume "base_barLoop e (length (b_bars s1)) s1 = Next s'"
    then have "base_update e delta rx s = Inr (base_timerStep delta s')"
      by (simp add: base_update_def Let_def s1_def [symmetric])
    with s'(2) p1 show ?thesis by simp
  next
    assume "base_barLoop e (length (b_bars s1)) s1 = Return s'"
    then have "base_update e delta rx s = Inr s'"
      by (simp add: base_update_def Let_def s1_def [symmetric])
    with s'(2) p1 show ?thesis by simp
  qed
qed

lemma movePlayer_range:
  assumes "player_width (player s) \<le> canvas_width e"
  shows "0 \<le> player_x (player (movePlayer e s)) \<and>
     player_x (player (movePlayer e s)) \<le> canvas_width e - player_width (player (movePlayer e s))"
  using assms by (auto simp: movePlayer_def clampPlayer_def Let_def)

lemma base_movePlayer_range:
  assumes "player_width (b_player s) \<le> canvas_width e"
  shows "0 \<le> player_x (b_player (base_movePlayer e s)) \<and>
     player_x (b_player (base_movePlayer e s))
       \<le> canvas_width e - player_width (b_player (base_movePlayer e s))"
  using assms by (auto simp: base_movePlayer_def clampPlayer_def Let_def)

subsection \<open>The example states\<close>

lemma demoGame_eq:
  "demoGame =
     \<lparr>highScores = [], localStorage = Map.empty, bullets = [],
      currentPlayerName = ''Nova'', score = 0, timeLeft = 60, lives = 3, bars = [],
      lastSpawn = 0, lastTime = 0, gameRunning = True, keyState = Map.empty,
      player = \<lparr>player_x = 455, player_y = 618, player_width = 90, player_height = 112\<rparr>,
      level = 1, currentSpawnInterval = 1000, gameOverHeading = []\<rparr>"
  by (simp add: demoGame_def startGame_def scriptLoad_def demoEnv_def
        PLAYER_NAMES_def PLAYER_WIDTH_def PLAYER_HEIGHT_def GAME_DURATION_def
        INITIAL_LIVES_def BAR_SPAWN_INTERVAL_def)

lemma demo_bars:
  "hitsPlayer (fall goodBar) (player demoGame)"
  "hitsPlayer (fall badBar) (player demoGame)"
  "\<not> hitsPlayer (fall lowBar) (player demoGame)"
  "\<not> hitsPlayer (fall highBar) (player demoGame)"
  "bar_y (fall lowBar) > canvas_height demoEnv"
  "\<not> bar_y (fall highBar) > canvas_height demoEnv"
  "\<not> isBad goodBar" "isBad badBar" "\<not> isBad lowBar"
  by (simp_all add: hitsPlayer_def fall_def goodBar_def badBar_def lowBar_def highBar_def
        demoGame_eq demoEnv_def)

lemma rise_fields [simp]:
  "bullet_height (rise u) = bullet_height u" "bullet_y (rise u) = bullet_y u - BULLET_SPEED"
  by (simp_all add: rise_def)

lemma demo_bullet:
  "hitsBar (rise demoBullet) goodBar" "hitsBar (rise demoBullet) badBar"
  "\<not> bullet_y (rise demoBullet) + bullet_height (rise demoBullet) < 0"
  by (simp_all add: hitsBar_def rise_def demoBullet_def goodBar_def badBar_def BULLET_SPEED_def)

lemmas demo_bars_eq = demo_bars [unfolded demoGame_eq, simplified]

lemma demo_canvas: "canvas_width demoEnv = 1000" "canvas_height demoEnv = 750"
  by (simp_all add: demoEnv_def)

subsection \<open>Levels and verdicts\<close>

lemma barBody_level:
  assumes "i < length (bars s)"
  shows "\<exists>s'. (barBody e i s = Next s' \<or> barBody e i s = Return s') \<and>
      level s' =
        (if hitsPlayer (fall (bars s ! i)) (player s) \<and> \<not> isBad (bars s ! i) \<and>
            score s + 1 < WIN_SCORE \<and> (score s + 1) mod 5 = 0
         then level s + 1 else level s) \<and>
      currentSpawnInterval s' =
        (if hitsPlayer (fall (bars s ! i)) (player s) \<and> \<not> isBad (bars s ! i) \<and>
            score s + 1 < WIN_SCORE \<and> (score s + 1) mod 5 = 0
         then max 300 (1000 - (real_of_int (level s + 1) - 1) * 100)
         else currentSpawnInterval s)"
  using assms
  by (auto simp: barBody_def Let_def spawnInterval_def BAR_SPAWN_INTERVAL_def)

lemma update_level:
  "\<exists>s'. update e delta rx rb s = Inr s' \<and> level s \<le> level s' \<and>
      (300 \<le> currentSpawnInterval s \<longrightarrow> 300 \<le> currentSpawnInterval s') \<and>
      (currentSpawnInterval s = spawnInterval (level s) \<longrightarrow>
         currentSpawnInterval s' = spawnInterval (level s') \<and>
         currentSpawnInterval s' \<le> currentSpawnInterval s)"
proof -
  have sp: "level (spawnStep e delta rx rb (movePlayer e s)) = level s"
    "currentSpawnInterval (spawnStep e delta rx rb (movePlayer e s)) = currentSpawnInterval s"
    by (simp_all add: spawnStep_def spawnBar_def Let_def)
  show ?thesis
  proof (cases rule: update_cases [of e delta rx rb s])
    case (ended s')
    from barLoop_frame [of e _ _ s'] ended(1)
    have "barFrame (spawnStep e delta rx rb (movePlayer e s)) s'" by blast
    with sp ended(2) show ?thesis by (auto simp: barFrame_def)
  next
    case (ticked s2 s3)
    from barLoop_frame [of e _ _ s2] ticked(1)
    have "barFrame (spawnStep e delta rx rb (movePlayer e s)) s2" by blast
    with sp ticked(4) bulletFrame_fields(3,8) [OF ticked(3)] show ?thesis
      by (auto simp: barFrame_def)
  qed
qed

lemma barBody_verdict:
  assumes "i < length (bars s)" and "gameRunning s"
  shows "(barBody e i s = Return t \<longrightarrow> barLoop e (Suc i) s = Return t \<and>
            (if hitsPlayer (fall (bars s ! i)) (player s) \<and> \<not> isBad (bars s ! i)
             then isWon t \<and> WIN_SCORE \<le> score s + 1 \<and> score t = score s + 1 \<and>
                  lives t = lives s
             else isLost t \<and> lives s - 1 \<le> 0 \<and> lives t = lives s - 1 \<and>
                  score t = score s)) \<and>
         (barBody e i s = Next t \<longrightarrow> gameRunning t \<and>
            gameOverHeading t = gameOverHeading s \<and>
            (if hitsPlayer (fall (bars s ! i)) (player s) \<and> \<not> isBad (bars s ! i)
             then score s + 1 < WIN_SCORE \<and> score t = score s + 1 \<and> lives t = lives s
             else score t = score s \<and>
                  (if kept e (player s) (fall (bars s ! i)) then lives t = lives s
                   else 0 < lives s - 1 \<and> lives t = lives s - 1)))"
  using assms
  by (auto simp: barBody_def Let_def isWon_def isLost_def kept_def split: if_splits)

lemma barLoop_verdict:
  assumes "n \<le> length (bars s)" and "gameRunning s" and "0 < lives s"
    and "score s < WIN_SCORE"
  shows "(barLoop e n s = Return t \<longrightarrow>
            (isWon t \<and> score t = WIN_SCORE \<and> 0 < lives t) \<or>
            (isLost t \<and> score t < WIN_SCORE \<and> lives t \<le> 0)) \<and>
         (barLoop e n s = Next t \<longrightarrow> gameRunning t \<and> 0 < lives t \<and> score t < WIN_SCORE)"
  using assms
proof (induction n arbitrary: s)
  case 0
  then show ?case by auto
next
  case (Suc n)
  then have n: "n < length (bars s)" by simp
  note V = barBody_verdict [OF n Suc.prems(2), of e]
  show ?case
  proof (cases "barBody e n s")
    case (Next u)
    with V [of u] Suc.prems have u: "gameRunning u" "0 < lives u" "score u < WIN_SCORE"
      by (auto split: if_splits)
    from Next have "n \<le> length (bars u)" by (rule barBody_Next_length)
    from Suc.IH [OF this u] Next show ?thesis by simp
  next
    case (Return u)
    with V [of u] Suc.prems
    have "(isWon u \<and> score u = WIN_SCORE \<and> 0 < lives u) \<or>
          (isLost u \<and> score u < WIN_SCORE \<and> lives u \<le> 0)"
      by (auto split: if_splits)
    with Return show ?thesis by auto
  next
    case (Throw x)
    with barBody_Throw [OF n, of e x] show ?thesis by simp
  qed
qed


lemma timerStep_cases:
  "timerStep e d s =
     (if timeLeft s - d / 1000 \<le> 0 then endGame e (s\<lparr>timeLeft := 0\<rparr>)
      else s\<lparr>timeLeft := timeLeft s - d / 1000\<rparr>)"
  by (simp add: timerStep_def Let_def)

lemma spawnStep_fields [simp]:
  "gameRunning (spawnStep e delta rx rb s) = gameRunning s"
  "lives (spawnStep e delta rx rb s) = lives s"
  "score (spawnStep e delta rx rb s) = score s"
  "timeLeft (spawnStep e delta rx rb s) = timeLeft s"
  "level (spawnStep e delta rx rb s) = level s"
  "bullets (spawnStep e delta rx rb s) = bullets s"
  by (simp_all add: spawnStep_def spawnBar_def Let_def)

lemma won_not_lost: "isWon s \<Longrightarrow> \<not> isLost s"
  by (auto simp: isWon_def isLost_def)

lemma update_verdict:
  assumes "gameRunning s" and "0 < lives s" and "score s < WIN_SCORE"
  shows "\<exists>s'. update e delta rx rb s = Inr s' \<and>
      (isWon s' \<or> isLost s' \<or> gameRunning s') \<and>
      (isWon s' \<longrightarrow> score s' = WIN_SCORE \<and> 0 < lives s' \<and> timeLeft s' = timeLeft s) \<and>
      (isLost s' \<longrightarrow> score s' < WIN_SCORE \<and>
         (lives s' \<le> 0 \<and> timeLeft s' = timeLeft s \<or>
          0 < lives s' \<and> timeLeft s - delta / 1000 \<le> 0 \<and> timeLeft s' = 0)) \<and>
      (gameRunning s' \<longrightarrow> 0 < lives s' \<and> score s' < WIN_SCORE \<and>
         timeLeft s' = timeLeft s - delta / 1000 \<and> 0 < timeLeft s')"
proof (cases rule: update_cases [of e delta rx rb s])
  case (ended s')
  let ?s1 = "spawnStep e delta rx rb (movePlayer e s)"
  have pre: "gameRunning ?s1" "0 < lives ?s1" "score ?s1 < WIN_SCORE"
    using assms by simp_all
  from barLoop_verdict [OF _ pre, of "length (bars ?s1)" e s'] ended(1)
  have v: "(isWon s' \<and> score s' = WIN_SCORE \<and> 0 < lives s') \<or>
          (isLost s' \<and> score s' < WIN_SCORE \<and> lives s' \<le> 0)"
    by simp
  from barLoop_frame [of e _ _ s'] ended(1) have "barFrame ?s1 s'" by blast
  then have t: "timeLeft s' = timeLeft s" by (simp add: barFrame_def)
  from v have nr: "\<not> gameRunning s'" by (auto simp: isWon_def isLost_def)
  from v t nr won_not_lost [of s'] have
    "(isWon s' \<or> isLost s' \<or> gameRunning s') \<and>
      (isWon s' \<longrightarrow> score s' = WIN_SCORE \<and> 0 < lives s' \<and> timeLeft s' = timeLeft s) \<and>
      (isLost s' \<longrightarrow> score s' < WIN_SCORE \<and>
         (lives s' \<le> 0 \<and> timeLeft s' = timeLeft s \<or>
          0 < lives s' \<and> timeLeft s - delta / 1000 \<le> 0 \<and> timeLeft s' = 0)) \<and>
      (gameRunning s' \<longrightarrow> 0 < lives s' \<and> score s' < WIN_SCORE \<and>
         timeLeft s' = timeLeft s - delta / 1000 \<and> 0 < timeLeft s')"
    by blast
  with ended(2) show ?thesis by blast
next
  case (ticked s2 s3)
  let ?s1 = "spawnStep e delta rx rb (movePlayer e s)"
  have pre: "gameRunning ?s1" "0 < lives ?s1" "score ?s1 < WIN_SCORE"
    using assms by simp_all
  from barLoop_verdict [OF _ pre, of "length (bars ?s1)" e s2] ticked(1)
  have v2: "gameRunning s2" "0 < lives s2" "score s2 < WIN_SCORE" by simp_all
  from barLoop_frame [of e _ _ s2] ticked(1) have "barFrame ?s1 s2" by blast
  then have t2: "timeLeft s2 = timeLeft s" by (simp add: barFrame_def)
  note F = bulletFrame_fields [OF ticked(3)]
  from ticked(3) have "lives s2 \<le> lives s3" by (simp add: bulletFrame_def)
  with v2 F t2 have v3: "gameRunning s3" "0 < lives s3" "score s3 < WIN_SCORE"
    "timeLeft s3 = timeLeft s" by simp_all
  let ?s' = "timerStep e delta s3"
  have "(isWon ?s' \<or> isLost ?s' \<or> gameRunning ?s') \<and>
      (isWon ?s' \<longrightarrow> score ?s' = WIN_SCORE \<and> 0 < lives ?s' \<and> timeLeft ?s' = timeLeft s) \<and>
      (isLost ?s' \<longrightarrow> score ?s' < WIN_SCORE \<and>
         (lives ?s' \<le> 0 \<and> timeLeft ?s' = timeLeft s \<or>
          0 < lives ?s' \<and> timeLeft s - delta / 1000 \<le> 0 \<and> timeLeft ?s' = 0)) \<and>
      (gameRunning ?s' \<longrightarrow> 0 < lives ?s' \<and> score ?s' < WIN_SCORE \<and>
         timeLeft ?s' = timeLeft s - delta / 1000 \<and> 0 < timeLeft ?s')"
  proof (cases "timeLeft s3 - delta / 1000 \<le> 0")
    case True
    then have eq: "?s' = endGame e (s3\<lparr>timeLeft := 0\<rparr>)" by (simp add: timerStep_cases)
    show ?thesis unfolding eq using v3 True
      by (simp add: isWon_def isLost_def)
  next
    case False
    then have eq: "?s' = s3\<lparr>timeLeft := timeLeft s3 - delta / 1000\<rparr>"
      by (simp add: timerStep_cases)
    show ?thesis unfolding eq using v3 False
      by (simp add: isWon_def isLost_def)
  qed
  with ticked(4) show ?thesis by blast
qed

lemmas demo_bars_num = demo_bars_eq [unfolded demo_canvas]

subsection \<open>The loop over the bullets as one pass\<close>

lemma splice1_middle: "splice1 (length pre) (pre @ x # suf) = pre @ suf"
  by (simp add: splice1_def)

lemma bulletBody_at:
  assumes b: "bullets s = pre @ u0 # suf"
  shows "\<exists>t. bulletBody (length pre) s = Next t \<and>
           (bullets t = pre @ suf \<or> bullets t = pre @ rise u0 # suf)"
proof -
  define s1 where "s1 = s\<lparr>bullets := pre @ rise u0 # suf\<rparr>"
  have bi: "length pre < length (bullets s)" using b by simp
  have nth: "bullets s ! length pre = u0" using b by simp
  have upd: "(bullets s)[length pre := rise u0] = pre @ rise u0 # suf" using b by simp
  show ?thesis
  proof (cases "bullet_y (rise u0) + bullet_height (rise u0) < 0")
    case True
    then have "bulletBody (length pre) s = Next (s1\<lparr>bullets := splice1 (length pre) (bullets s1)\<rparr>)"
      using bi by (simp add: bulletBody_def Let_def nth upd s1_def)
    moreover have "bullets (s1\<lparr>bullets := splice1 (length pre) (bullets s1)\<rparr>) = pre @ suf"
      by (simp add: s1_def splice1_middle)
    ultimately show ?thesis by blast
  next
    case False
    then have body: "bulletBody (length pre) s =
        (case hitScan (length pre) (rise u0) (length (bars s1)) s1 of
           Next (bulletRemoved, s') \<Rightarrow> Next s'
         | Return (bulletRemoved, s') \<Rightarrow> Return s'
         | Throw x \<Rightarrow> Throw x)"
      using bi by (simp add: bulletBody_def Let_def nth upd s1_def)
    from hitScan_result [of "length (bars s1)" s1 "length pre" "rise u0"]
    consider "hitScan (length pre) (rise u0) (length (bars s1)) s1 = Next (False, s1)"
      | i where "hitScan (length pre) (rise u0) (length (bars s1)) s1 =
          Next (True, s1\<lparr>bars := splice1 i (bars s1),
                         bullets := splice1 (length pre) (bullets s1),
                         lives := (if isBad (bars s1 ! i) then lives s1 + 1 else lives s1)\<rparr>)"
      by blast
    then show ?thesis
    proof cases
      case 1
      with body have "bulletBody (length pre) s = Next s1" by simp
      moreover have "bullets s1 = pre @ rise u0 # suf" by (simp add: s1_def)
      ultimately show ?thesis by blast
    next
      case 2
      with body have "bulletBody (length pre) s =
          Next (s1\<lparr>bars := splice1 i (bars s1),
                         bullets := splice1 (length pre) (bullets s1),
                         lives := (if isBad (bars s1 ! i) then lives s1 + 1 else lives s1)\<rparr>)"
        by simp
      moreover have "bullets (s1\<lparr>bars := splice1 i (bars s1),
                         bullets := splice1 (length pre) (bullets s1),
                         lives := (if isBad (bars s1 ! i) then lives s1 + 1 else lives s1)\<rparr>)
          = pre @ suf"
        by (simp add: s1_def splice1_middle)
      ultimately show ?thesis by blast
    qed
  qed
qed

lemma bulletLoop_pass:
  "bullets s = pre @ suf \<Longrightarrow>
   \<exists>s' ks. bulletLoop (length pre) s = Next s' \<and> bullets s' = ks @ suf \<and>
           subseq ks (map rise pre)"
proof (induction pre arbitrary: s suf rule: rev_induct)
  case Nil
  then show ?case by simp
next
  case (snoc u0 pre)
  then have b: "bullets s = pre @ u0 # suf" by simp
  from bulletBody_at [OF b] obtain t where
    t: "bulletBody (length pre) s = Next t"
       "bullets t = pre @ suf \<or> bullets t = pre @ rise u0 # suf" by blast
  from t(2) show ?case
  proof
    assume "bullets t = pre @ suf"
    from snoc.IH [OF this] obtain s' ks where
      "bulletLoop (length pre) t = Next s'" "bullets s' = ks @ suf" "subseq ks (map rise pre)"
      by blast
    with t(1) show ?thesis by (intro exI [of _ s'] exI [of _ ks]) (simp add: subseq_rev_drop_many)
  next
    assume "bullets t = pre @ rise u0 # suf"
    from snoc.IH [OF this] obtain s' ks where
      k: "bulletLoop (length pre) t = Next s'" "bullets s' = ks @ rise u0 # suf"
        "subseq ks (map rise pre)"
      by blast
    from k(3) have "subseq (ks @ [rise u0]) (map rise pre @ [rise u0])"
      by (rule list_emb_append_mono) simp
    with t(1) k show ?thesis by (intro exI [of _ s'] exI [of _ "ks @ [rise u0]"]) simp
  qed
qed

lemma update_bars:
  "\<exists>r. update e delta rx rb s = Inr r \<and>
     (barLoop e (length (bars (spawnStep e delta rx rb (movePlayer e s))))
        (spawnStep e delta rx rb (movePlayer e s)) = Return r \<or>
      subseq (bars r)
        (filter (kept e (player (spawnStep e delta rx rb (movePlayer e s))))
           (map fall (bars (spawnStep e delta rx rb (movePlayer e s))))))"
proof (cases rule: update_cases [of e delta rx rb s])
  case (ended s')
  then show ?thesis by blast
next
  case (ticked s2 s3)
  let ?s1 = "spawnStep e delta rx rb (movePlayer e s)"
  from barLoop_pass [of ?s1 "bars ?s1" "[]" e s2] ticked(1)
  have "bars s2 = filter (kept e (player ?s1)) (map fall (bars ?s1))" by simp
  moreover from ticked(3) have "subseq (bars s3) (bars s2)" by (simp add: bulletFrame_def)
  ultimately have "subseq (bars (timerStep e delta s3))
      (filter (kept e (player ?s1)) (map fall (bars ?s1)))" by simp
  with ticked(4) show ?thesis by blast
qed


lemma bulletLoop_summary:
  "\<exists>t'. bulletLoop (length (bullets s)) s = Next t' \<and>
      subseq (bars t') (bars s) \<and> subseq (bullets t') (map rise (bullets s)) \<and>
      score t' = score s \<and> lives s \<le> lives t' \<and>
      lives t' - lives s \<le> int (length (bars s)) - int (length (bars t')) \<and>
      int (length (bars s)) - int (length (bars t'))
        \<le> int (length (bullets s)) - int (length (bullets t'))"
proof -
  from bulletLoop_frame [of "length (bullets s)" s] obtain t' where
    t: "bulletLoop (length (bullets s)) s = Next t'" "bulletFrame s t'" by auto
  from bulletLoop_pass [of s "bullets s" "[]"] t(1)
  have "subseq (bullets t') (map rise (bullets s))" by auto
  with t bulletFrame_fields(2) [OF t(2)] show ?thesis
    unfolding bulletFrame_def by blast
qed

section \<open>The leaderboard\<close>


lemma length_insort_cmp: "length (insort_cmp cmp a xs) = Suc (length xs)"
  by (induction xs) auto

lemma length_Array_sort: "length (Array_sort cmp xs) = length xs"
  by (induction xs) (simp_all add: Array_sort_def length_insort_cmp)








section \<open>Loading and saving\<close>

lemma load_parse_failure:
  assumes "st storageKey = Some stored" and "JSON_parse e stored = Inl x"
  shows "loadHighScores e st = JArr []" and "scriptStart e st = Inr (JArr [])"
  using assms
  by (auto simp: scriptStart_def renderHighScores_def loadHighScores_def tryLoad_def Let_def)

text \<open>
  Claim C5 is not met by the script. The \<^verbatim>\<open>catch\<close> covers a parser that throws, and
  then the leaderboard is the empty array. But a stored text that the parser accepts
  is assigned whatever it denotes, and when that value is not an array (the texts
  \<^verbatim>\<open>null\<close>, \<^verbatim>\<open>5\<close>, \<^verbatim>\<open>{}\<close>) nothing replaces it: the leaderboard is not the empty
  list, and on a page with the list element the first \<^verbatim>\<open>renderHighScores()\<close> throws
  a \<^verbatim>\<open>TypeError\<close> outside every \<^verbatim>\<open>try\<close>, which ends the script while it loads.
\<close>

theorem load_non_array_aborts:
  "st storageKey = Some stored \<and> stored \<noteq> [] \<and> JSON_parse e stored = Inr v \<and>
   \<not> isArray v \<and> highScoresListEl e \<longrightarrow>
     tryLoad e st = Inr v \<and> loadHighScores e st = v \<and> loadHighScores e st \<noteq> JArr [] \<and>
     renderHighScores e (loadHighScores e st) = Some TypeError \<and>
     scriptStart e st = Inl TypeError"
proof
  assume a: "st storageKey = Some stored \<and> stored \<noteq> [] \<and> JSON_parse e stored = Inr v \<and>
   \<not> isArray v \<and> highScoresListEl e"
  then have t: "tryLoad e st = Inr v" by (simp add: tryLoad_def)
  then have l: "loadHighScores e st = v" by (simp add: loadHighScores_def)
  from a have n: "v \<noteq> JArr []" by auto
  from a have r: "renderHighScores e v = Some TypeError"
    by (cases v) (simp_all add: renderHighScores_def)
  from l r have s: "scriptStart e st = Inl TypeError" by (simp add: scriptStart_def)
  from t l n r s
  show "tryLoad e st = Inr v \<and> loadHighScores e st = v \<and> loadHighScores e st \<noteq> JArr [] \<and>
     renderHighScores e (loadHighScores e st) = Some TypeError \<and>
     scriptStart e st = Inl TypeError"
    by simp
qed

theorem load_non_array_aborts_witness:
  "[storageKey \<mapsto> ''null''] storageKey = Some ''null'' \<and> ''null'' \<noteq> [] \<and>
   JSON_parse demoEnv ''null'' = Inr JNull \<and> \<not> isArray JNull \<and> highScoresListEl demoEnv \<and>
   loadHighScores demoEnv [storageKey \<mapsto> ''null''] = JNull \<and>
   loadHighScores demoEnv [storageKey \<mapsto> ''null''] \<noteq> JArr [] \<and>
   scriptStart demoEnv [storageKey \<mapsto> ''null''] = Inl TypeError"
proof -
  have h1: "[storageKey \<mapsto> ''null''] storageKey = Some ''null''" by simp
  have h2: "''null'' \<noteq> []" by simp
  have h3: "JSON_parse demoEnv ''null'' = Inr JNull" by (simp add: demoEnv_def demoText_def)
  have h4: "\<not> isArray JNull" by simp
  have h5: "highScoresListEl demoEnv" by (simp add: demoEnv_def)
  from load_non_array_aborts
         [where st = "[storageKey \<mapsto> ''null'']" and stored = "''null''" and e = demoEnv
            and v = JNull]
       h1 h2 h3 h4 h5
  show ?thesis by blast
qed

section \<open>The player stays in the field\<close>

text \<open>
  Claim C10. When the field is at least as wide as the player, then after every update
  step, of the enriched and of the baseline script, and after every pointer move the
  player's horizontal position \<open>x\<close> satisfies \<open>0 \<le> x \<le> fieldWidth - playerWidth\<close>.
  The update step always returns a state: it does not throw.
\<close>

theorem player_stays_in_field:
  "(player_width (player s) \<le> canvas_width e \<longrightarrow>
      (\<exists>s'. update e delta rx rb s = Inr s' \<and> 0 \<le> player_x (player s') \<and>
            player_x (player s') \<le> canvas_width e - player_width (player s')) \<and>
      0 \<le> player_x (player (mousemove e mx s)) \<and>
      player_x (player (mousemove e mx s))
        \<le> canvas_width e - player_width (player (mousemove e mx s))) \<and>
   (player_width (b_player t) \<le> canvas_width e \<longrightarrow>
      (\<exists>t'. base_update e delta rx t = Inr t' \<and> 0 \<le> player_x (b_player t') \<and>
            player_x (b_player t') \<le> canvas_width e - player_width (b_player t')))"
proof (intro conjI impI)
  assume w: "player_width (player s) \<le> canvas_width e"
  from update_player [of e delta rx rb s] obtain s' where
    "update e delta rx rb s = Inr s'" "player s' = player (movePlayer e s)" by blast
  with movePlayer_range [OF w]
  show "\<exists>s'. update e delta rx rb s = Inr s' \<and> 0 \<le> player_x (player s') \<and>
            player_x (player s') \<le> canvas_width e - player_width (player s')"
    by auto
  from w show "0 \<le> player_x (player (mousemove e mx s))"
    by (auto simp: mousemove_def clampPlayer_def Let_def)
  from w show "player_x (player (mousemove e mx s))
        \<le> canvas_width e - player_width (player (mousemove e mx s))"
    by (auto simp: mousemove_def clampPlayer_def Let_def)
next
  assume w: "player_width (b_player t) \<le> canvas_width e"
  from base_update_player [of e delta rx t] obtain t' where
    "base_update e delta rx t = Inr t'" "b_player t' = b_player (base_movePlayer e t)" by blast
  with base_movePlayer_range [OF w]
  show "\<exists>t'. base_update e delta rx t = Inr t' \<and> 0 \<le> player_x (b_player t') \<and>
            player_x (b_player t') \<le> canvas_width e - player_width (b_player t')"
    by auto
qed

theorem player_stays_in_field_witness:
  "player_width (player demoGame) \<le> canvas_width demoEnv \<and>
   (\<exists>s'. update demoEnv 16 0.5 0.5 demoGame = Inr s' \<and> 0 \<le> player_x (player s') \<and>
      player_x (player s') \<le> canvas_width demoEnv - player_width (player s')) \<and>
   player_x (player (mousemove demoEnv 5000 demoGame)) = 910 \<and>
   player_x (player (mousemove demoEnv (-7) demoGame)) = 0 \<and>
   player_width (b_player base_demoGame) \<le> canvas_width demoEnv \<and>
   (\<exists>t'. base_update demoEnv 16 0.5 base_demoGame = Inr t' \<and> 0 \<le> player_x (b_player t') \<and>
      player_x (b_player t') \<le> canvas_width demoEnv - player_width (b_player t'))"
proof -
  have h1: "player_width (player demoGame) \<le> canvas_width demoEnv"
    by (simp add: demoGame_eq demoEnv_def)
  have h2: "player_width (b_player base_demoGame) \<le> canvas_width demoEnv"
    by (simp add: base_demoGame_def demoEnv_def base_PLAYER_WIDTH_def)
  have m1: "player_x (player (mousemove demoEnv 5000 demoGame)) = 910"
    by (simp add: mousemove_def clampPlayer_def demoGame_eq demoEnv_def)
  have m2: "player_x (player (mousemove demoEnv (-7) demoGame)) = 0"
    by (simp add: mousemove_def clampPlayer_def demoGame_eq demoEnv_def)
  from player_stays_in_field [of demoGame demoEnv 16 "0.5" "0.5" 5000 base_demoGame] h1 h2 m1 m2
  show ?thesis by blast
qed



section \<open>The spawner\<close>

text \<open>
  Claim C7. The spawner adds the elapsed time to its accumulator \<open>lastSpawn\<close>. When the
  sum reaches the current spawn interval, exactly one bar is appended to the store and
  the accumulator is reset to 0; the bar's horizontal position is the random draw
  \<open>rx\<close> scaled by \<open>fieldWidth - objectWidth\<close>, hence within \<open>[0, fieldWidth - objectWidth]\<close>
  for a draw in \<open>[0, 1)\<close>, and as evenly distributed as the draw. Below the interval
  no bar is created. Over a whole update step the store grows by at most one bar,
  however large the elapsed time, and the accumulator ends as the spawner left it.
\<close>

theorem spawner_one_per_tick:
  "(currentSpawnInterval s \<le> lastSpawn s + delta \<longrightarrow>
      (\<exists>b. bars (spawnStep e delta rx rb s) = bars s @ [b] \<and>
           bar_x b = rx * (canvas_width e - BAR_WIDTH) \<and> bar_width b = BAR_WIDTH \<and>
           bar_y b = - BAR_HEIGHT \<and>
           (0 \<le> rx \<and> rx < 1 \<and> BAR_WIDTH \<le> canvas_width e \<longrightarrow>
              0 \<le> bar_x b \<and> bar_x b \<le> canvas_width e - bar_width b)) \<and>
      lastSpawn (spawnStep e delta rx rb s) = 0) \<and>
   (lastSpawn s + delta < currentSpawnInterval s \<longrightarrow>
      bars (spawnStep e delta rx rb s) = bars s \<and>
      lastSpawn (spawnStep e delta rx rb s) = lastSpawn s + delta) \<and>
   (\<exists>s'. update e delta rx rb s = Inr s' \<and>
      lastSpawn s' = (if currentSpawnInterval s \<le> lastSpawn s + delta then 0
                      else lastSpawn s + delta) \<and>
      length (bars s') \<le> Suc (length (bars s)))"
proof (intro conjI impI)
  assume a: "currentSpawnInterval s \<le> lastSpawn s + delta"
  define b where "b = \<lparr>bar_x = rx * (canvas_width e - BAR_WIDTH), bar_y = - BAR_HEIGHT,
     bar_width = BAR_WIDTH, bar_height = BAR_HEIGHT,
     bar_speed = 2 + min (real_of_int (score s) * 0.1) 5, isBad = (rb < BAD_BAR_PROBABILITY)\<rparr>"
  have 1: "bars (spawnStep e delta rx rb s) = bars s @ [b]"
    using a by (simp add: spawnStep_def spawnBar_def Let_def b_def)
  have 2: "0 \<le> rx \<and> rx < 1 \<and> BAR_WIDTH \<le> canvas_width e \<longrightarrow>
              0 \<le> bar_x b \<and> bar_x b \<le> canvas_width e - bar_width b"
  proof
    assume r: "0 \<le> rx \<and> rx < 1 \<and> BAR_WIDTH \<le> canvas_width e"
    then have "0 \<le> canvas_width e - BAR_WIDTH" by simp
    with r have "rx * (canvas_width e - BAR_WIDTH) \<le> 1 * (canvas_width e - BAR_WIDTH)"
      by (intro mult_right_mono) simp_all
    with r show "0 \<le> bar_x b \<and> bar_x b \<le> canvas_width e - bar_width b"
      by (simp add: b_def)
  qed
  from 1 2 show "\<exists>b. bars (spawnStep e delta rx rb s) = bars s @ [b] \<and>
           bar_x b = rx * (canvas_width e - BAR_WIDTH) \<and> bar_width b = BAR_WIDTH \<and>
           bar_y b = - BAR_HEIGHT \<and>
           (0 \<le> rx \<and> rx < 1 \<and> BAR_WIDTH \<le> canvas_width e \<longrightarrow>
              0 \<le> bar_x b \<and> bar_x b \<le> canvas_width e - bar_width b)"
    by (intro exI [of _ b]) (simp add: b_def)
  from a show "lastSpawn (spawnStep e delta rx rb s) = 0"
    by (simp add: spawnStep_def spawnBar_def Let_def)
next
  assume a: "lastSpawn s + delta < currentSpawnInterval s"
  then show "bars (spawnStep e delta rx rb s) = bars s"
    by (simp add: spawnStep_def Let_def)
  from a show "lastSpawn (spawnStep e delta rx rb s) = lastSpawn s + delta"
    by (simp add: spawnStep_def Let_def)
next
  from update_spawn [of e delta rx rb s] obtain s' where
    s': "update e delta rx rb s = Inr s'" "lastSpawn s' = lastSpawn (spawnStep e delta rx rb s)"
      "length (bars s') \<le> length (bars (spawnStep e delta rx rb s))" by blast
  have "lastSpawn (spawnStep e delta rx rb s) =
      (if currentSpawnInterval s \<le> lastSpawn s + delta then 0 else lastSpawn s + delta)"
    by (simp add: spawnStep_def spawnBar_def Let_def)
  moreover have "length (bars (spawnStep e delta rx rb s)) \<le> Suc (length (bars s))"
    by (simp add: spawnStep_def spawnBar_def Let_def)
  ultimately show "\<exists>s'. update e delta rx rb s = Inr s' \<and>
      lastSpawn s' = (if currentSpawnInterval s \<le> lastSpawn s + delta then 0
                      else lastSpawn s + delta) \<and>
      length (bars s') \<le> Suc (length (bars s))"
    using s' by (intro exI [of _ s']) simp
qed


theorem spawner_one_per_tick_witness:
  "currentSpawnInterval demoGame \<le> lastSpawn demoGame + 5000 \<and>
   (0::real) \<le> 0.5 \<and> (0.5::real) < 1 \<and> BAR_WIDTH \<le> canvas_width demoEnv \<and>
   (\<exists>b. bars (spawnStep demoEnv 5000 0.5 0.9 demoGame) = bars demoGame @ [b] \<and>
        bar_x b = 475 \<and> 0 \<le> bar_x b \<and> bar_x b \<le> canvas_width demoEnv - bar_width b) \<and>
   lastSpawn (spawnStep demoEnv 5000 0.5 0.9 demoGame) = 0 \<and>
   lastSpawn demoGame + 16 < currentSpawnInterval demoGame \<and>
   bars (spawnStep demoEnv 16 0.5 0.9 demoGame) = bars demoGame \<and>
   lastSpawn (spawnStep demoEnv 16 0.5 0.9 demoGame) = lastSpawn demoGame + 16"
proof -
  have h1: "currentSpawnInterval demoGame \<le> lastSpawn demoGame + 5000"
    by (simp add: demoGame_eq)
  have h2: "(0::real) \<le> 0.5 \<and> (0.5::real) < 1 \<and> BAR_WIDTH \<le> canvas_width demoEnv"
    by (simp add: BAR_WIDTH_def demoEnv_def)
  have h3: "lastSpawn demoGame + 16 < currentSpawnInterval demoGame"
    by (simp add: demoGame_eq)
  have x: "0.5 * (canvas_width demoEnv - BAR_WIDTH) = 475"
    by (simp add: BAR_WIDTH_def demoEnv_def)
  note A = spawner_one_per_tick [where s = demoGame and delta = 5000 and e = demoEnv
      and rx = "0.5" and rb = "0.9"]
  note B = spawner_one_per_tick [where s = demoGame and delta = 16 and e = demoEnv
      and rx = "0.5" and rb = "0.9"]
  from A h1 h2 x have a: "\<exists>b. bars (spawnStep demoEnv 5000 0.5 0.9 demoGame) = bars demoGame @ [b] \<and>
        bar_x b = 475 \<and> 0 \<le> bar_x b \<and> bar_x b \<le> canvas_width demoEnv - bar_width b"
    by auto
  from A h1 have a2: "lastSpawn (spawnStep demoEnv 5000 0.5 0.9 demoGame) = 0" by blast
  from B h3 have b: "bars (spawnStep demoEnv 16 0.5 0.9 demoGame) = bars demoGame \<and>
   lastSpawn (spawnStep demoEnv 16 0.5 0.9 demoGame) = lastSpawn demoGame + 16" by blast
  from h1 h2 h3 a a2 b show ?thesis by blast
qed


section \<open>The outcomes of one bar\<close>

text \<open>
  Claim C2 fails for a bar that overlaps the player but is not reached by the loop. With
  one life left the store holds \<open>goodBar\<close> and after it \<open>badBar\<close>, both over the player.
  The loop visits \<open>badBar\<close> first: the last life is lost and the step returns. \<open>goodBar\<close>
  overlaps the player before and after its move would have, yet it is still in the
  store, unmoved, and the score has not changed.
\<close>

theorem good_bar_left_after_loss:
  "hitsPlayer goodBar (player (demoGame\<lparr>bars := [goodBar, badBar], lives := 1\<rparr>)) \<and>
   hitsPlayer (fall goodBar) (player (demoGame\<lparr>bars := [goodBar, badBar], lives := 1\<rparr>)) \<and>
   \<not> isBad goodBar \<and>
   \<not> isl (update demoEnv 16 0.5 0.5 (demoGame\<lparr>bars := [goodBar, badBar], lives := 1\<rparr>)) \<and>
   isLost (projr (update demoEnv 16 0.5 0.5 (demoGame\<lparr>bars := [goodBar, badBar], lives := 1\<rparr>))) \<and>
   bars (projr (update demoEnv 16 0.5 0.5 (demoGame\<lparr>bars := [goodBar, badBar], lives := 1\<rparr>)))
     = [goodBar] \<and>
   score (projr (update demoEnv 16 0.5 0.5 (demoGame\<lparr>bars := [goodBar, badBar], lives := 1\<rparr>)))
     = score (demoGame\<lparr>bars := [goodBar, badBar], lives := 1\<rparr>) \<and>
   lives (projr (update demoEnv 16 0.5 0.5 (demoGame\<lparr>bars := [goodBar, badBar], lives := 1\<rparr>)))
     = 0"
proof -
  have "hitsPlayer goodBar
      \<lparr>player_x = 455, player_y = 618, player_width = 90, player_height = 112\<rparr>"
    by (simp add: hitsPlayer_def goodBar_def)
  then show ?thesis
    by (simp add: update_def Let_def movePlayer_def truthy_def clampPlayer_def spawnStep_def
          barBody_def demo_bars_num splice1_def WIN_SCORE_def demoGame_eq demo_canvas)
qed

text \<open>
  Claim C2, amended. A bar that overlaps the player when the loop tests it (after its
  move) is removed from the store. A good one raises \<open>score\<close> by exactly 1 and the
  session is won exactly when the raised score reaches \<open>WIN_SCORE\<close>, which is 20; a bad
  one lowers \<open>lives\<close> by exactly 1 and the session is lost exactly when the lowered
  count is 0 or less. In both cases the update step returns at once when the session
  ends, and the bars of smaller index are then not tested.
\<close>

theorem catch_outcome:
  assumes "i < length (bars s)" and "hitsPlayer (fall (bars s ! i)) (player s)"
    and "gameRunning s"
  shows "\<exists>s'. (barBody e i s = Next s' \<or> barBody e i s = Return s') \<and>
      bars s' = splice1 i (bars s) \<and>
      (barBody e i s = Return s' \<longrightarrow> barLoop e (Suc i) s = Return s') \<and>
      (if isBad (bars s ! i)
       then lives s' = lives s - 1 \<and> score s' = score s \<and>
            (isLost s' \<longleftrightarrow> lives s - 1 \<le> 0) \<and> \<not> isWon s' \<and>
            (barBody e i s = Return s' \<longleftrightarrow> lives s - 1 \<le> 0)
       else score s' = score s + 1 \<and> lives s' = lives s \<and>
            (isWon s' \<longleftrightarrow> score s + 1 \<ge> WIN_SCORE) \<and> \<not> isLost s' \<and>
            (barBody e i s = Return s' \<longleftrightarrow> score s + 1 \<ge> WIN_SCORE))"
  using assms
  by (auto simp: barBody_def Let_def isWon_def isLost_def)

theorem catch_outcome_witness:
  "1 < length (bars (demoGame\<lparr>bars := [highBar, goodBar], score := 19\<rparr>)) \<and>
   hitsPlayer (fall (bars (demoGame\<lparr>bars := [highBar, goodBar], score := 19\<rparr>) ! 1))
     (player (demoGame\<lparr>bars := [highBar, goodBar], score := 19\<rparr>)) \<and>
   gameRunning (demoGame\<lparr>bars := [highBar, goodBar], score := 19\<rparr>) \<and>
   (\<exists>s'. barBody demoEnv 1 (demoGame\<lparr>bars := [highBar, goodBar], score := 19\<rparr>) = Return s' \<and>
      bars s' = [highBar] \<and> score s' = 20 \<and> lives s' = 3 \<and> isWon s') \<and>
   0 < length (bars (demoGame\<lparr>bars := [badBar], lives := 2\<rparr>)) \<and>
   hitsPlayer (fall (bars (demoGame\<lparr>bars := [badBar], lives := 2\<rparr>) ! 0))
     (player (demoGame\<lparr>bars := [badBar], lives := 2\<rparr>)) \<and>
   gameRunning (demoGame\<lparr>bars := [badBar], lives := 2\<rparr>) \<and>
   (\<exists>s'. barBody demoEnv 0 (demoGame\<lparr>bars := [badBar], lives := 2\<rparr>) = Next s' \<and>
      bars s' = [] \<and> score s' = 0 \<and> lives s' = 1 \<and> \<not> isLost s')"
proof -
  let ?S = "demoGame\<lparr>bars := [highBar, goodBar], score := 19\<rparr>"
  let ?T = "demoGame\<lparr>bars := [badBar], lives := 2\<rparr>"
  have g1: "1 < length (bars ?S)" by simp
  have g2: "hitsPlayer (fall (bars ?S ! 1)) (player ?S)" by (simp add: demo_bars)
  have g3: "gameRunning ?S" by (simp add: demoGame_eq)
  have b1: "0 < length (bars ?T)" by simp
  have b2: "hitsPlayer (fall (bars ?T ! 0)) (player ?T)" by (simp add: demo_bars)
  have b3: "gameRunning ?T" by (simp add: demoGame_eq)
  from catch_outcome [OF g1 g2 g3, of demoEnv]
  have g: "\<exists>s'. barBody demoEnv 1 ?S = Return s' \<and>
      bars s' = [highBar] \<and> score s' = 20 \<and> lives s' = 3 \<and> isWon s'"
    by (auto simp: demo_bars splice1_def WIN_SCORE_def demoGame_eq)
  from catch_outcome [OF b1 b2 b3, of demoEnv]
  have b: "\<exists>s'. barBody demoEnv 0 ?T = Next s' \<and>
      bars s' = [] \<and> score s' = 0 \<and> lives s' = 1 \<and> \<not> isLost s'"
    by (auto simp: demo_bars splice1_def demoGame_eq)
  from g1 g2 g3 g b1 b2 b3 b show ?thesis by blast
qed


text \<open>
  Claim C4. A bar that does not overlap the player when the loop tests it and whose top
  edge is beyond the field height is removed, and \<open>lives\<close> drops by exactly 1 whatever
  the bar's classification; the session is lost exactly when the lowered count is 0 or
  less. The same holds in the baseline script, whose bars have no classification and
  whose only terminal state is the game-over screen.
\<close>

theorem miss_outcome:
  "(i < length (bars s) \<and> \<not> hitsPlayer (fall (bars s ! i)) (player s) \<and>
    bar_y (fall (bars s ! i)) > canvas_height e \<and> gameRunning s \<longrightarrow>
      (\<exists>s'. (barBody e i s = Next s' \<or> barBody e i s = Return s') \<and>
         bars s' = splice1 i (bars s) \<and>
         lives s' = lives s - 1 \<and> score s' = score s \<and> level s' = level s \<and>
         (isLost s' \<longleftrightarrow> lives s - 1 \<le> 0) \<and> \<not> isWon s' \<and>
         (barBody e i s = Return s' \<longleftrightarrow> lives s - 1 \<le> 0))) \<and>
   (j < length (b_bars t) \<and> \<not> base_hitsPlayer (base_fall (b_bars t ! j)) (b_player t) \<and>
    bb_y (base_fall (b_bars t ! j)) > canvas_height e \<and> b_gameRunning t \<longrightarrow>
      (\<exists>t'. (base_barBody e j t = Next t' \<or> base_barBody e j t = Return t') \<and>
         b_bars t' = splice1 j (b_bars t) \<and>
         b_lives t' = b_lives t - 1 \<and> b_score t' = b_score t \<and>
         (\<not> b_gameRunning t' \<longleftrightarrow> b_lives t - 1 \<le> 0) \<and>
         (base_barBody e j t = Return t' \<longleftrightarrow> b_lives t - 1 \<le> 0)))"
  by (auto simp: barBody_def base_barBody_def Let_def isWon_def isLost_def base_endGame_def)

theorem miss_outcome_witness:
  "0 < length (bars (demoGame\<lparr>bars := [lowBar, highBar], lives := 1\<rparr>)) \<and>
   \<not> hitsPlayer (fall (bars (demoGame\<lparr>bars := [lowBar, highBar], lives := 1\<rparr>) ! 0))
       (player (demoGame\<lparr>bars := [lowBar, highBar], lives := 1\<rparr>)) \<and>
   bar_y (fall (bars (demoGame\<lparr>bars := [lowBar, highBar], lives := 1\<rparr>) ! 0))
     > canvas_height demoEnv \<and>
   gameRunning (demoGame\<lparr>bars := [lowBar, highBar], lives := 1\<rparr>) \<and>
   (\<exists>s'. barBody demoEnv 0 (demoGame\<lparr>bars := [lowBar, highBar], lives := 1\<rparr>) = Return s' \<and>
      bars s' = [highBar] \<and> lives s' = 0 \<and> score s' = 0 \<and> isLost s') \<and>
   0 < length (b_bars (base_demoGame\<lparr>b_bars := [base_lowBar]\<rparr>)) \<and>
   \<not> base_hitsPlayer (base_fall (b_bars (base_demoGame\<lparr>b_bars := [base_lowBar]\<rparr>) ! 0))
       (b_player (base_demoGame\<lparr>b_bars := [base_lowBar]\<rparr>)) \<and>
   bb_y (base_fall (b_bars (base_demoGame\<lparr>b_bars := [base_lowBar]\<rparr>) ! 0))
     > canvas_height demoEnv \<and>
   b_gameRunning (base_demoGame\<lparr>b_bars := [base_lowBar]\<rparr>) \<and>
   (\<exists>t'. base_barBody demoEnv 0 (base_demoGame\<lparr>b_bars := [base_lowBar]\<rparr>) = Next t' \<and>
      b_bars t' = [] \<and> b_lives t' = 2 \<and> b_gameRunning t')"
proof -
  let ?S = "demoGame\<lparr>bars := [lowBar, highBar], lives := 1\<rparr>"
  let ?T = "base_demoGame\<lparr>b_bars := [base_lowBar]\<rparr>"
  have s1: "0 < length (bars ?S)" by simp
  have s2: "\<not> hitsPlayer (fall (bars ?S ! 0)) (player ?S)" by (simp add: demo_bars)
  have s3: "bar_y (fall (bars ?S ! 0)) > canvas_height demoEnv" by (simp add: demo_bars)
  have s4: "gameRunning ?S" by (simp add: demoGame_eq)
  have t1: "0 < length (b_bars ?T)" by simp
  have t2: "\<not> base_hitsPlayer (base_fall (b_bars ?T ! 0)) (b_player ?T)"
    by (simp add: base_hitsPlayer_def base_fall_def base_lowBar_def base_demoGame_def)
  have t3: "bb_y (base_fall (b_bars ?T ! 0)) > canvas_height demoEnv"
    by (simp add: base_fall_def base_lowBar_def demoEnv_def)
  have t4: "b_gameRunning ?T" by (simp add: base_demoGame_def)
  note M = miss_outcome [where i = 0 and s = ?S and e = demoEnv and j = 0 and t = ?T]
  from M s1 s2 s3 s4
  have a: "\<exists>s'. barBody demoEnv 0 ?S = Return s' \<and>
      bars s' = [highBar] \<and> lives s' = 0 \<and> score s' = 0 \<and> isLost s'"
    by (auto simp: splice1_def demoGame_eq)
  from M t1 t2 t3 t4
  have b: "\<exists>t'. base_barBody demoEnv 0 ?T = Next t' \<and>
      b_bars t' = [] \<and> b_lives t' = 2 \<and> b_gameRunning t'"
    by (auto simp: splice1_def base_demoGame_def)
  from s1 s2 s3 s4 a t1 t2 t3 t4 b show ?thesis by blast
qed


text \<open>
  Claim C3. When the inner loop finds a bar that overlaps the bullet, the bar and the
  bullet are both removed from their stores. Nothing else changes when the bar is good:
  \<open>score\<close>, \<open>lives\<close> and \<open>level\<close> stay. When the bar is bad, \<open>lives\<close> grows by
  exactly 1, from any value. The second part is the same for the whole body of the
  bullet loop: the bullet that has moved and is still in the field removes the
  overlapping bar of greatest index.
\<close>

theorem bullet_hit_outcome:
  "(i < length (bars s) \<and> hitsBar u (bars s ! i) \<and> bi < length (bullets s) \<longrightarrow>
      (\<exists>s'. hitScan bi u (Suc i) s = Next (True, s') \<and>
         s' = s\<lparr>bars := splice1 i (bars s), bullets := splice1 bi (bullets s),
                lives := (if isBad (bars s ! i) then lives s + 1 else lives s)\<rparr> \<and>
         length (bars s') = length (bars s) - 1 \<and>
         length (bullets s') = length (bullets s) - 1 \<and>
         score s' = score s \<and> level s' = level s \<and>
         (if isBad (bars s ! i) then lives s' = lives s + 1 else lives s' = lives s))) \<and>
   (i < length (bars s) \<and> bi < length (bullets s) \<and>
    \<not> bullet_y (rise (bullets s ! bi)) + bullet_height (rise (bullets s ! bi)) < 0 \<and>
    hitsBar (rise (bullets s ! bi)) (bars s ! i) \<and>
    (\<forall>j. i < j \<and> j < length (bars s) \<longrightarrow> \<not> hitsBar (rise (bullets s ! bi)) (bars s ! j)) \<longrightarrow>
      bulletBody bi s =
        Next (s\<lparr>bars := splice1 i (bars s), bullets := splice1 bi (bullets s),
                lives := (if isBad (bars s ! i) then lives s + 1 else lives s)\<rparr>))"
proof (intro conjI impI)
  assume "i < length (bars s) \<and> hitsBar u (bars s ! i) \<and> bi < length (bullets s)"
  then show "\<exists>s'. hitScan bi u (Suc i) s = Next (True, s') \<and>
         s' = s\<lparr>bars := splice1 i (bars s), bullets := splice1 bi (bullets s),
                lives := (if isBad (bars s ! i) then lives s + 1 else lives s)\<rparr> \<and>
         length (bars s') = length (bars s) - 1 \<and>
         length (bullets s') = length (bullets s) - 1 \<and>
         score s' = score s \<and> level s' = level s \<and>
         (if isBad (bars s ! i) then lives s' = lives s + 1 else lives s' = lives s)"
    by (simp add: Let_def length_splice1)
next
  assume a: "i < length (bars s) \<and> bi < length (bullets s) \<and>
    \<not> bullet_y (rise (bullets s ! bi)) + bullet_height (rise (bullets s ! bi)) < 0 \<and>
    hitsBar (rise (bullets s ! bi)) (bars s ! i) \<and>
    (\<forall>j. i < j \<and> j < length (bars s) \<longrightarrow> \<not> hitsBar (rise (bullets s ! bi)) (bars s ! j))"
  define u where "u = rise (bullets s ! bi)"
  define s1 where "s1 = s\<lparr>bullets := (bullets s)[bi := u]\<rparr>"
  have bars1: "bars s1 = bars s" by (simp add: s1_def)
  from hitScan_result [of "length (bars s1)" s1 bi u]
  have "(hitScan bi u (length (bars s)) s1 = Next (False, s1) \<and>
           (\<forall>j<length (bars s). \<not> hitsBar u (bars s ! j))) \<or>
        (\<exists>k<length (bars s). hitsBar u (bars s ! k) \<and>
           (\<forall>j. k < j \<and> j < length (bars s) \<longrightarrow> \<not> hitsBar u (bars s ! j)) \<and>
           hitScan bi u (length (bars s)) s1 =
             Next (True, s1\<lparr>bars := splice1 k (bars s), bullets := splice1 bi (bullets s1),
                          lives := (if isBad (bars s ! k) then lives s1 + 1 else lives s1)\<rparr>))"
    by (simp add: bars1)
  moreover from a have "\<not> (\<forall>j<length (bars s). \<not> hitsBar u (bars s ! j))"
    unfolding u_def by blast
  ultimately obtain k where k: "k < length (bars s)" "hitsBar u (bars s ! k)"
    "\<forall>j. k < j \<and> j < length (bars s) \<longrightarrow> \<not> hitsBar u (bars s ! j)"
    "hitScan bi u (length (bars s)) s1 =
       Next (True, s1\<lparr>bars := splice1 k (bars s), bullets := splice1 bi (bullets s1),
                    lives := (if isBad (bars s ! k) then lives s1 + 1 else lives s1)\<rparr>)"
    by blast
  have "k = i"
  proof (rule ccontr)
    assume "k \<noteq> i"
    then consider "k < i" | "i < k" by linarith
    then show False
    proof cases
      case 1
      with k(3) a show False unfolding u_def by blast
    next
      case 2
      with a k(1,2) show False unfolding u_def by blast
    qed
  qed
  have "bulletBody bi s =
      (case hitScan bi u (length (bars s1)) s1 of
         Next (bulletRemoved, s') \<Rightarrow> Next s'
       | Return (bulletRemoved, s') \<Rightarrow> Return s'
       | Throw x \<Rightarrow> Throw x)"
    using a by (simp add: bulletBody_def Let_def u_def [symmetric] s1_def [symmetric])
  with k(4) \<open>k = i\<close>
  show "bulletBody bi s =
        Next (s\<lparr>bars := splice1 i (bars s), bullets := splice1 bi (bullets s),
                lives := (if isBad (bars s ! i) then lives s + 1 else lives s)\<rparr>)"
    by (simp add: bars1 s1_def)
qed


theorem bullet_hit_outcome_witness:
  "0 < length (bars (demoGame\<lparr>bars := [goodBar], bullets := [demoBullet]\<rparr>)) \<and>
   hitsBar (rise demoBullet) (bars (demoGame\<lparr>bars := [goodBar], bullets := [demoBullet]\<rparr>) ! 0) \<and>
   0 < length (bullets (demoGame\<lparr>bars := [goodBar], bullets := [demoBullet]\<rparr>)) \<and>
   hitScan 0 (rise demoBullet) (Suc 0) (demoGame\<lparr>bars := [goodBar], bullets := [demoBullet]\<rparr>)
     = Next (True, demoGame) \<and>
   1 < length (bars (demoGame\<lparr>bars := [goodBar, badBar], bullets := [demoBullet]\<rparr>)) \<and>
   0 < length (bullets (demoGame\<lparr>bars := [goodBar, badBar], bullets := [demoBullet]\<rparr>)) \<and>
   \<not> bullet_y (rise (bullets (demoGame\<lparr>bars := [goodBar, badBar], bullets := [demoBullet]\<rparr>) ! 0))
       + bullet_height (rise (bullets (demoGame\<lparr>bars := [goodBar, badBar], bullets := [demoBullet]\<rparr>) ! 0)) < 0 \<and>
   hitsBar (rise (bullets (demoGame\<lparr>bars := [goodBar, badBar], bullets := [demoBullet]\<rparr>) ! 0))
     (bars (demoGame\<lparr>bars := [goodBar, badBar], bullets := [demoBullet]\<rparr>) ! 1) \<and>
   bulletBody 0 (demoGame\<lparr>bars := [goodBar, badBar], bullets := [demoBullet]\<rparr>)
     = Next (demoGame\<lparr>bars := [goodBar], lives := 4\<rparr>)"
proof -
  let ?S = "demoGame\<lparr>bars := [goodBar], bullets := [demoBullet]\<rparr>"
  let ?T = "demoGame\<lparr>bars := [goodBar, badBar], bullets := [demoBullet]\<rparr>"
  have s1: "0 < length (bars ?S)" by simp
  have s2: "hitsBar (rise demoBullet) (bars ?S ! 0)" by (simp add: demo_bullet)
  have s3: "0 < length (bullets ?S)" by simp
  have t1: "1 < length (bars ?T)" by simp
  have t2: "0 < length (bullets ?T)" by simp
  have t3: "\<not> bullet_y (rise (bullets ?T ! 0)) + bullet_height (rise (bullets ?T ! 0)) < 0"
    using demo_bullet(3) by simp
  have t4: "hitsBar (rise (bullets ?T ! 0)) (bars ?T ! 1)" by (simp add: demo_bullet)
  have t5: "\<forall>j. 1 < j \<and> j < length (bars ?T) \<longrightarrow> \<not> hitsBar (rise (bullets ?T ! 0)) (bars ?T ! j)"
    by auto
  note A = bullet_hit_outcome [where i = 0 and s = ?S and u = "rise demoBullet" and bi = 0]
  note B = bullet_hit_outcome [where i = 1 and s = ?T and u = "rise demoBullet" and bi = 0]
  from A s1 s2 s3 have a: "hitScan 0 (rise demoBullet) (Suc 0) ?S = Next (True, demoGame)"
    by (simp add: splice1_def demo_bars demoGame_eq del: hitScan.simps)
  from B t1 t2 t3 t4 t5
  have "bulletBody 0 ?T =
        Next (?T\<lparr>bars := splice1 1 (bars ?T), bullets := splice1 0 (bullets ?T),
                lives := (if isBad (bars ?T ! 1) then lives ?T + 1 else lives ?T)\<rparr>)"
    by blast
  then have b: "bulletBody 0 ?T = Next (demoGame\<lparr>bars := [goodBar], lives := 4\<rparr>)"
    by (simp add: splice1_def demo_bars demoGame_eq)
  from s1 s2 s3 a t1 t2 t3 t4 b show ?thesis by blast
qed



section \<open>Levels\<close>

text \<open>
  Claim C8 fails for the points that win the session: with \<open>score = 19\<close> and
  \<open>level = 4\<close>, five points after the level-up at 15, a good catch makes the score 20
  and ends the session, and \<open>level\<close> and the spawn interval stay as they were.
\<close>

theorem level_up_skipped_at_win:
  "\<not> isl (update demoEnv 16 0.5 0.5
        (demoGame\<lparr>bars := [goodBar], score := 19, level := 4, currentSpawnInterval := 700\<rparr>)) \<and>
   score (projr (update demoEnv 16 0.5 0.5
        (demoGame\<lparr>bars := [goodBar], score := 19, level := 4, currentSpawnInterval := 700\<rparr>))) = 20 \<and>
   level (projr (update demoEnv 16 0.5 0.5
        (demoGame\<lparr>bars := [goodBar], score := 19, level := 4, currentSpawnInterval := 700\<rparr>))) = 4 \<and>
   currentSpawnInterval (projr (update demoEnv 16 0.5 0.5
        (demoGame\<lparr>bars := [goodBar], score := 19, level := 4, currentSpawnInterval := 700\<rparr>))) = 700"
  by (simp add: update_def Let_def movePlayer_def truthy_def clampPlayer_def spawnStep_def
        barBody_def demo_bars_eq splice1_def WIN_SCORE_def demoGame_eq demo_canvas)


text \<open>
  Claim C8, amended. A good catch that brings the score to a multiple of 5 below
  \<open>WIN_SCORE\<close> raises \<open>level\<close> by exactly 1 and sets the spawn interval to
  \<open>max(300, 1000 - (level - 1) * 100)\<close> for the new level; every other outcome of a bar,
  the winning catch included, leaves both alone. Over an update step \<open>level\<close> never
  decreases and the spawn interval never drops below 300; the interval as a function
  of the level is non-increasing with floor 300; a session starts at level 1 with
  interval 1000, and from there on the interval is that function of the level and
  never increases.
\<close>

theorem level_progression:
  "(i < length (bars s) \<longrightarrow>
      (\<exists>s'. (barBody e i s = Next s' \<or> barBody e i s = Return s') \<and>
         level s' =
           (if hitsPlayer (fall (bars s ! i)) (player s) \<and> \<not> isBad (bars s ! i) \<and>
               score s + 1 < WIN_SCORE \<and> (score s + 1) mod 5 = 0
            then level s + 1 else level s) \<and>
         currentSpawnInterval s' =
           (if hitsPlayer (fall (bars s ! i)) (player s) \<and> \<not> isBad (bars s ! i) \<and>
               score s + 1 < WIN_SCORE \<and> (score s + 1) mod 5 = 0
            then max 300 (1000 - (real_of_int (level s + 1) - 1) * 100)
            else currentSpawnInterval s))) \<and>
   (\<exists>s'. update e delta rx rb s = Inr s' \<and> level s \<le> level s' \<and>
      (300 \<le> currentSpawnInterval s \<longrightarrow> 300 \<le> currentSpawnInterval s') \<and>
      (currentSpawnInterval s = spawnInterval (level s) \<longrightarrow>
         currentSpawnInterval s' = spawnInterval (level s') \<and>
         currentSpawnInterval s' \<le> currentSpawnInterval s)) \<and>
   (l \<le> l' \<longrightarrow> spawnInterval l' \<le> spawnInterval l) \<and>
   300 \<le> spawnInterval l \<and>
   spawnInterval l = max 300 (1000 - (real_of_int l - 1) * 100) \<and>
   level (startGame e r now s) = 1 \<and>
   currentSpawnInterval (startGame e r now s) = spawnInterval (level (startGame e r now s))"
proof (intro conjI impI)
  assume "i < length (bars s)"
  then show "\<exists>s'. (barBody e i s = Next s' \<or> barBody e i s = Return s') \<and>
         level s' =
           (if hitsPlayer (fall (bars s ! i)) (player s) \<and> \<not> isBad (bars s ! i) \<and>
               score s + 1 < WIN_SCORE \<and> (score s + 1) mod 5 = 0
            then level s + 1 else level s) \<and>
         currentSpawnInterval s' =
           (if hitsPlayer (fall (bars s ! i)) (player s) \<and> \<not> isBad (bars s ! i) \<and>
               score s + 1 < WIN_SCORE \<and> (score s + 1) mod 5 = 0
            then max 300 (1000 - (real_of_int (level s + 1) - 1) * 100)
            else currentSpawnInterval s)"
    by (rule barBody_level)
next
  show "\<exists>s'. update e delta rx rb s = Inr s' \<and> level s \<le> level s' \<and>
      (300 \<le> currentSpawnInterval s \<longrightarrow> 300 \<le> currentSpawnInterval s') \<and>
      (currentSpawnInterval s = spawnInterval (level s) \<longrightarrow>
         currentSpawnInterval s' = spawnInterval (level s') \<and>
         currentSpawnInterval s' \<le> currentSpawnInterval s)"
    by (rule update_level)
next
  assume "l \<le> l'"
  then show "spawnInterval l' \<le> spawnInterval l" by (rule spawnInterval_antimono)
next
  show "300 \<le> spawnInterval l" by (rule spawnInterval_floor)
  show "spawnInterval l = max 300 (1000 - (real_of_int l - 1) * 100)"
    by (simp add: spawnInterval_def BAR_SPAWN_INTERVAL_def)
  show "level (startGame e r now s) = 1" by (simp add: startGame_def Let_def)
  show "currentSpawnInterval (startGame e r now s) = spawnInterval (level (startGame e r now s))"
    by (simp add: startGame_def Let_def spawnInterval_def BAR_SPAWN_INTERVAL_def)
qed


theorem level_progression_witness:
  "0 < length (bars (demoGame\<lparr>bars := [goodBar], score := 4\<rparr>)) \<and>
   (\<exists>s'. (barBody demoEnv 0 (demoGame\<lparr>bars := [goodBar], score := 4\<rparr>) = Next s' \<or>
          barBody demoEnv 0 (demoGame\<lparr>bars := [goodBar], score := 4\<rparr>) = Return s') \<and>
      level s' = 2 \<and> currentSpawnInterval s' = 900) \<and>
   300 \<le> currentSpawnInterval (demoGame\<lparr>bars := [goodBar], score := 4\<rparr>) \<and>
   currentSpawnInterval (demoGame\<lparr>bars := [goodBar], score := 4\<rparr>)
     = spawnInterval (level (demoGame\<lparr>bars := [goodBar], score := 4\<rparr>)) \<and>
   (\<exists>s'. update demoEnv 16 0.5 0.5 (demoGame\<lparr>bars := [goodBar], score := 4\<rparr>) = Inr s' \<and>
      level (demoGame\<lparr>bars := [goodBar], score := 4\<rparr>) \<le> level s' \<and>
      300 \<le> currentSpawnInterval s' \<and>
      currentSpawnInterval s' = spawnInterval (level s') \<and>
      currentSpawnInterval s' \<le> currentSpawnInterval (demoGame\<lparr>bars := [goodBar], score := 4\<rparr>)) \<and>
   (1::int) \<le> 2 \<and> spawnInterval 2 \<le> spawnInterval 1"
proof -
  let ?S = "demoGame\<lparr>bars := [goodBar], score := 4\<rparr>"
  have h1: "0 < length (bars ?S)" by simp
  have h2: "300 \<le> currentSpawnInterval ?S" by (simp add: demoGame_eq)
  have h3: "currentSpawnInterval ?S = spawnInterval (level ?S)"
    by (simp add: demoGame_eq spawnInterval_def BAR_SPAWN_INTERVAL_def)
  have h4: "(1::int) \<le> 2" by simp
  note L = level_progression [where i = 0 and s = ?S and e = demoEnv and delta = 16
      and rx = "0.5" and rb = "0.5" and l = 1 and l' = 2 and r = "0.5" and now = 0]
  have c: "hitsPlayer (fall (bars ?S ! 0)) (player ?S) \<and> \<not> isBad (bars ?S ! 0) \<and>
      score ?S + 1 < WIN_SCORE \<and> (score ?S + 1) mod 5 = 0"
    by (simp add: demo_bars_eq WIN_SCORE_def demoGame_eq)
  have v: "level ?S + 1 = 2" "max 300 (1000 - (real_of_int (level ?S + 1) - 1) * 100) = 900"
    by (simp_all add: demoGame_eq)
  from L h1 have "\<exists>s'. (barBody demoEnv 0 ?S = Next s' \<or> barBody demoEnv 0 ?S = Return s') \<and>
         level s' =
           (if hitsPlayer (fall (bars ?S ! 0)) (player ?S) \<and> \<not> isBad (bars ?S ! 0) \<and>
               score ?S + 1 < WIN_SCORE \<and> (score ?S + 1) mod 5 = 0
            then level ?S + 1 else level ?S) \<and>
         currentSpawnInterval s' =
           (if hitsPlayer (fall (bars ?S ! 0)) (player ?S) \<and> \<not> isBad (bars ?S ! 0) \<and>
               score ?S + 1 < WIN_SCORE \<and> (score ?S + 1) mod 5 = 0
            then max 300 (1000 - (real_of_int (level ?S + 1) - 1) * 100)
            else currentSpawnInterval ?S)"
    by blast
  with c v have a: "\<exists>s'. (barBody demoEnv 0 ?S = Next s' \<or> barBody demoEnv 0 ?S = Return s') \<and>
      level s' = 2 \<and> currentSpawnInterval s' = 900"
    by simp
  from L h2 h3 have b: "\<exists>s'. update demoEnv 16 0.5 0.5 ?S = Inr s' \<and>
      level ?S \<le> level s' \<and> 300 \<le> currentSpawnInterval s' \<and>
      currentSpawnInterval s' = spawnInterval (level s') \<and>
      currentSpawnInterval s' \<le> currentSpawnInterval ?S"
    by blast
  from L h4 have d: "spawnInterval 2 \<le> spawnInterval 1" by blast
  from h1 a h2 h3 b h4 d show ?thesis by blast
qed



section \<open>The end of a session\<close>

text \<open>
  Claim C1 fails when a winning catch is tested before a miss of the same step. With
  one life left and \<open>score = 19\<close>, the store holds \<open>lowBar\<close>, which leaves the field
  with this move (alone it ends the step lost, with \<open>lives = 0\<close>), and after it
  \<open>goodBar\<close>, which falls onto the player. The loop visits \<open>goodBar\<close> first: the session
  is won, and \<open>lowBar\<close> is still in the store, neither moved nor tested.
\<close>

theorem win_before_miss:
  "lives (demoGame\<lparr>bars := [lowBar, goodBar], score := 19, lives := 1\<rparr>) = 1 \<and>
   \<not> hitsPlayer (fall lowBar) (player (demoGame\<lparr>bars := [lowBar, goodBar], score := 19, lives := 1\<rparr>)) \<and>
   bar_y (fall lowBar) > canvas_height demoEnv \<and>
   isLost (projr (update demoEnv 16 0.5 0.5 (demoGame\<lparr>bars := [lowBar], score := 19, lives := 1\<rparr>))) \<and>
   lives (projr (update demoEnv 16 0.5 0.5 (demoGame\<lparr>bars := [lowBar], score := 19, lives := 1\<rparr>))) = 0 \<and>
   \<not> isl (update demoEnv 16 0.5 0.5 (demoGame\<lparr>bars := [lowBar, goodBar], score := 19, lives := 1\<rparr>)) \<and>
   isWon (projr (update demoEnv 16 0.5 0.5 (demoGame\<lparr>bars := [lowBar, goodBar], score := 19, lives := 1\<rparr>))) \<and>
   \<not> isLost (projr (update demoEnv 16 0.5 0.5 (demoGame\<lparr>bars := [lowBar, goodBar], score := 19, lives := 1\<rparr>))) \<and>
   bars (projr (update demoEnv 16 0.5 0.5 (demoGame\<lparr>bars := [lowBar, goodBar], score := 19, lives := 1\<rparr>))) = [lowBar]"
  by (simp add: update_def Let_def movePlayer_def truthy_def clampPlayer_def spawnStep_def
        barBody_def demo_bars_num splice1_def WIN_SCORE_def demoGame_eq demo_canvas)



text \<open>
  Claim C1, amended. The guards are not evaluated on the state once per step: each bar
  that the loop visits, from the greatest index down, has its own test. After a good
  catch only \<open>score \<ge> WIN_SCORE\<close> is tested (the session is won whatever \<open>lives\<close>
  is), after a bad catch or a miss only \<open>lives \<le> 0\<close> (the session is lost); the first
  test that succeeds ends the loop and the step, so the bars of smaller index are not
  visited. The remaining time is tested last, only when no bar has ended the session.
  Hence a step that starts running with \<open>lives > 0\<close> and \<open>score < WIN_SCORE\<close> always
  returns, and it ends won only with \<open>score = WIN_SCORE\<close>, \<open>lives > 0\<close> and the time
  untouched; lost only with \<open>score < WIN_SCORE\<close> and either \<open>lives \<le> 0\<close> and the time
  untouched or \<open>lives > 0\<close> and the time used up; and running otherwise.
\<close>

theorem first_outcome_decides:
  "(i < length (bars s) \<and> gameRunning s \<and> barBody e i s = Return t \<longrightarrow>
      barLoop e (Suc i) s = Return t \<and>
      (if hitsPlayer (fall (bars s ! i)) (player s) \<and> \<not> isBad (bars s ! i)
       then isWon t \<and> WIN_SCORE \<le> score s + 1 \<and> score t = score s + 1 \<and>
            lives t = lives s
       else isLost t \<and> lives s - 1 \<le> 0 \<and> lives t = lives s - 1 \<and> score t = score s)) \<and>
   (gameRunning s \<and> 0 < lives s \<and> score s < WIN_SCORE \<longrightarrow>
      (\<exists>s'. update e delta rx rb s = Inr s' \<and>
         (isWon s' \<or> isLost s' \<or> gameRunning s') \<and>
         (isWon s' \<longrightarrow> score s' = WIN_SCORE \<and> 0 < lives s' \<and> timeLeft s' = timeLeft s) \<and>
         (isLost s' \<longrightarrow> score s' < WIN_SCORE \<and>
            (lives s' \<le> 0 \<and> timeLeft s' = timeLeft s \<or>
             0 < lives s' \<and> timeLeft s - delta / 1000 \<le> 0 \<and> timeLeft s' = 0)) \<and>
         (gameRunning s' \<longrightarrow> 0 < lives s' \<and> score s' < WIN_SCORE \<and>
            timeLeft s' = timeLeft s - delta / 1000 \<and> 0 < timeLeft s')))"
proof (intro conjI impI)
  assume a: "i < length (bars s) \<and> gameRunning s \<and> barBody e i s = Return t"
  with barBody_verdict [of i s e t]
  show "barLoop e (Suc i) s = Return t" by blast
  from a barBody_verdict [of i s e t]
  show "if hitsPlayer (fall (bars s ! i)) (player s) \<and> \<not> isBad (bars s ! i)
       then isWon t \<and> WIN_SCORE \<le> score s + 1 \<and> score t = score s + 1 \<and>
            lives t = lives s
       else isLost t \<and> lives s - 1 \<le> 0 \<and> lives t = lives s - 1 \<and> score t = score s"
    by blast
next
  assume "gameRunning s \<and> 0 < lives s \<and> score s < WIN_SCORE"
  then show "\<exists>s'. update e delta rx rb s = Inr s' \<and>
         (isWon s' \<or> isLost s' \<or> gameRunning s') \<and>
         (isWon s' \<longrightarrow> score s' = WIN_SCORE \<and> 0 < lives s' \<and> timeLeft s' = timeLeft s) \<and>
         (isLost s' \<longrightarrow> score s' < WIN_SCORE \<and>
            (lives s' \<le> 0 \<and> timeLeft s' = timeLeft s \<or>
             0 < lives s' \<and> timeLeft s - delta / 1000 \<le> 0 \<and> timeLeft s' = 0)) \<and>
         (gameRunning s' \<longrightarrow> 0 < lives s' \<and> score s' < WIN_SCORE \<and>
            timeLeft s' = timeLeft s - delta / 1000 \<and> 0 < timeLeft s')"
    using update_verdict [of s e delta rx rb] by blast
qed

theorem first_outcome_decides_witness:
  "1 < length (bars (demoGame\<lparr>bars := [lowBar, goodBar], score := 19, lives := 1\<rparr>)) \<and>
   gameRunning (demoGame\<lparr>bars := [lowBar, goodBar], score := 19, lives := 1\<rparr>) \<and>
   barBody demoEnv 1 (demoGame\<lparr>bars := [lowBar, goodBar], score := 19, lives := 1\<rparr>)
     = Return (winGame demoEnv (demoGame\<lparr>bars := [lowBar], score := 20, lives := 1\<rparr>)) \<and>
   barLoop demoEnv (Suc 1) (demoGame\<lparr>bars := [lowBar, goodBar], score := 19, lives := 1\<rparr>)
     = Return (winGame demoEnv (demoGame\<lparr>bars := [lowBar], score := 20, lives := 1\<rparr>)) \<and>
   isWon (winGame demoEnv (demoGame\<lparr>bars := [lowBar], score := 20, lives := 1\<rparr>)) \<and>
   0 < lives (demoGame\<lparr>bars := [lowBar, goodBar], score := 19, lives := 1\<rparr>) \<and>
   score (demoGame\<lparr>bars := [lowBar, goodBar], score := 19, lives := 1\<rparr>) < WIN_SCORE \<and>
   (\<exists>s'. update demoEnv 16 0.5 0.5
           (demoGame\<lparr>bars := [lowBar, goodBar], score := 19, lives := 1\<rparr>) = Inr s' \<and>
      (isWon s' \<or> isLost s' \<or> gameRunning s'))"
proof -
  let ?S = "demoGame\<lparr>bars := [lowBar, goodBar], score := 19, lives := 1\<rparr>"
  let ?T = "winGame demoEnv (demoGame\<lparr>bars := [lowBar], score := 20, lives := 1\<rparr>)"
  have h1: "1 < length (bars ?S)" by simp
  have h2: "gameRunning ?S" by (simp add: demoGame_eq)
  have h3: "barBody demoEnv 1 ?S = Return ?T"
    by (simp add: barBody_def Let_def demo_bars_num splice1_def WIN_SCORE_def demoGame_eq
          demo_canvas)
  have h4: "0 < lives ?S" by simp
  have h5: "score ?S < WIN_SCORE" by (simp add: WIN_SCORE_def)
  note F = first_outcome_decides [where i = 1 and s = ?S and e = demoEnv and t = ?T
      and delta = 16 and rx = "0.5" and rb = "0.5"]
  from F h1 h2 h3 have a: "barLoop demoEnv (Suc 1) ?S = Return ?T" by blast
  have w: "isWon ?T" by simp
  from F h2 h4 h5 have b: "\<exists>s'. update demoEnv 16 0.5 0.5 ?S = Inr s' \<and>
      (isWon s' \<or> isLost s' \<or> gameRunning s')"
    by blast
  from h1 h2 h3 a w h4 h5 b show ?thesis by blast
qed


section \<open>One outcome for each bar\<close>

text \<open>
  Claim C9. Each loop runs down from the last index, and removing the entry just tested
  neither skips an entry nor brings one back.
  \<^item> When the loop over the bars runs to its end, every bar has moved exactly once and
    has been tested exactly once: the store then holds, in their order, the moved bars
    that were neither caught nor missed, \<open>score\<close> has grown by the number of good bars
    caught and \<open>lives\<close> has dropped by the number of bad bars caught and bars missed.
    The loop never reads beyond the store.
  \<^item> When it returns early, at some index \<open>k\<close> whose bar was caught or missed, the bars
    above \<open>k\<close> have been handled in that way and those below \<open>k\<close> are untouched.
  \<^item> The loop over the bullets always runs to its end. It only removes bars from the
    store it was given, at most one for each bullet it removes, and gives at most one
    life for each bar it removes; the bullets that remain have moved exactly once.
  \<^item> Hence, in a step whose loop over the bars runs to its end, the bars left at the end
    of the step are among the moved bars that were neither caught nor missed: a bar
    that the bullets remove had no other outcome, and a bar that was caught or missed
    is no longer there to be hit.
\<close>

theorem one_outcome_per_bar:
  "(barLoop e (length (bars s)) s = Next s' \<longrightarrow>
      bars s' = filter (kept e (player s)) (map fall (bars s)) \<and>
      score s' = score s + gain (player s) (map fall (bars s)) \<and>
      lives s' = lives s - loss e (player s) (map fall (bars s))) \<and>
   (barLoop e (length (bars s)) s = Return s' \<longrightarrow>
      (\<exists>k<length (bars s). \<not> kept e (player s) (fall (bars s ! k)) \<and>
         bars s' = take k (bars s) @
           filter (kept e (player s)) (map fall (drop (Suc k) (bars s))) \<and>
         score s' = score s + gain (player s) (map fall (drop k (bars s))) \<and>
         lives s' = lives s - loss e (player s) (map fall (drop k (bars s))))) \<and>
   (\<forall>x. barLoop e (length (bars s)) s \<noteq> Throw x) \<and>
   (\<exists>t'. bulletLoop (length (bullets s)) s = Next t' \<and>
      subseq (bars t') (bars s) \<and> subseq (bullets t') (map rise (bullets s)) \<and>
      score t' = score s \<and> lives s \<le> lives t' \<and>
      lives t' - lives s \<le> int (length (bars s)) - int (length (bars t')) \<and>
      int (length (bars s)) - int (length (bars t'))
        \<le> int (length (bullets s)) - int (length (bullets t'))) \<and>
   (\<exists>r. update e delta rx rb s = Inr r \<and>
      (barLoop e (length (bars (spawnStep e delta rx rb (movePlayer e s))))
         (spawnStep e delta rx rb (movePlayer e s)) = Return r \<or>
       subseq (bars r)
         (filter (kept e (player (spawnStep e delta rx rb (movePlayer e s))))
            (map fall (bars (spawnStep e delta rx rb (movePlayer e s)))))))"
proof -
  note P = barLoop_pass [of s "bars s" "[]" e s']
  have 1: "barLoop e (length (bars s)) s = Next s' \<longrightarrow>
      bars s' = filter (kept e (player s)) (map fall (bars s)) \<and>
      score s' = score s + gain (player s) (map fall (bars s)) \<and>
      lives s' = lives s - loss e (player s) (map fall (bars s))"
    using P by simp
  have 2: "barLoop e (length (bars s)) s = Return s' \<longrightarrow>
      (\<exists>k<length (bars s). \<not> kept e (player s) (fall (bars s ! k)) \<and>
         bars s' = take k (bars s) @
           filter (kept e (player s)) (map fall (drop (Suc k) (bars s))) \<and>
         score s' = score s + gain (player s) (map fall (drop k (bars s))) \<and>
         lives s' = lives s - loss e (player s) (map fall (drop k (bars s))))"
  proof
    assume "barLoop e (length (bars s)) s = Return s'"
    with P obtain k where "k < length (bars s)" "\<not> kept e (player s) (fall (bars s ! k))"
      "bars s' = take k (bars s) @
           filter (kept e (player s)) (map fall (drop (Suc k) (bars s))) @ []"
      "score s' = score s + gain (player s) (map fall (drop k (bars s)))"
      "lives s' = lives s - loss e (player s) (map fall (drop k (bars s)))"
      by auto
    then show "\<exists>k<length (bars s). \<not> kept e (player s) (fall (bars s ! k)) \<and>
         bars s' = take k (bars s) @
           filter (kept e (player s)) (map fall (drop (Suc k) (bars s))) \<and>
         score s' = score s + gain (player s) (map fall (drop k (bars s))) \<and>
         lives s' = lives s - loss e (player s) (map fall (drop k (bars s)))"
      by (intro exI [of _ k]) simp
  qed
  have 3: "\<forall>x. barLoop e (length (bars s)) s \<noteq> Throw x"
    by (simp add: barLoop_no_Throw)
  from 1 2 3 bulletLoop_summary [of s] update_bars [of e delta rx rb s]
  show ?thesis by (intro conjI)
qed


theorem one_outcome_per_bar_witness:
  "barLoop demoEnv (length (bars (demoGame\<lparr>bars := [lowBar, highBar, goodBar]\<rparr>)))
     (demoGame\<lparr>bars := [lowBar, highBar, goodBar]\<rparr>)
     = Next (demoGame\<lparr>bars := [fall highBar], score := 1, lives := 2\<rparr>) \<and>
   bars (demoGame\<lparr>bars := [fall highBar], score := 1, lives := 2\<rparr>)
     = filter (kept demoEnv (player (demoGame\<lparr>bars := [lowBar, highBar, goodBar]\<rparr>)))
         (map fall (bars (demoGame\<lparr>bars := [lowBar, highBar, goodBar]\<rparr>))) \<and>
   score (demoGame\<lparr>bars := [fall highBar], score := 1, lives := 2\<rparr>)
     = score (demoGame\<lparr>bars := [lowBar, highBar, goodBar]\<rparr>)
       + gain (player (demoGame\<lparr>bars := [lowBar, highBar, goodBar]\<rparr>))
           (map fall (bars (demoGame\<lparr>bars := [lowBar, highBar, goodBar]\<rparr>))) \<and>
   lives (demoGame\<lparr>bars := [fall highBar], score := 1, lives := 2\<rparr>)
     = lives (demoGame\<lparr>bars := [lowBar, highBar, goodBar]\<rparr>)
       - loss demoEnv (player (demoGame\<lparr>bars := [lowBar, highBar, goodBar]\<rparr>))
           (map fall (bars (demoGame\<lparr>bars := [lowBar, highBar, goodBar]\<rparr>))) \<and>
   barLoop demoEnv (length (bars (demoGame\<lparr>bars := [highBar, lowBar, goodBar], lives := 1\<rparr>)))
     (demoGame\<lparr>bars := [highBar, lowBar, goodBar], lives := 1\<rparr>)
     = Return (endGame demoEnv (demoGame\<lparr>bars := [highBar], score := 1, lives := 0\<rparr>)) \<and>
   (\<exists>k<length (bars (demoGame\<lparr>bars := [highBar, lowBar, goodBar], lives := 1\<rparr>)).
      bars (endGame demoEnv (demoGame\<lparr>bars := [highBar], score := 1, lives := 0\<rparr>))
        = take k (bars (demoGame\<lparr>bars := [highBar, lowBar, goodBar], lives := 1\<rparr>)) @
          filter (kept demoEnv (player (demoGame\<lparr>bars := [highBar, lowBar, goodBar], lives := 1\<rparr>)))
            (map fall (drop (Suc k) (bars (demoGame\<lparr>bars := [highBar, lowBar, goodBar], lives := 1\<rparr>)))))"
proof -
  let ?S = "demoGame\<lparr>bars := [lowBar, highBar, goodBar]\<rparr>"
  let ?S' = "demoGame\<lparr>bars := [fall highBar], score := 1, lives := 2\<rparr>"
  let ?T = "demoGame\<lparr>bars := [highBar, lowBar, goodBar], lives := 1\<rparr>"
  let ?T' = "endGame demoEnv (demoGame\<lparr>bars := [highBar], score := 1, lives := 0\<rparr>)"
  have h1: "barLoop demoEnv (length (bars ?S)) ?S = Next ?S'"
    by (simp add: barBody_def Let_def demo_bars_num splice1_def WIN_SCORE_def demoGame_eq
          demo_canvas)
  have h2: "barLoop demoEnv (length (bars ?T)) ?T = Return ?T'"
    by (simp add: barBody_def Let_def demo_bars_num splice1_def WIN_SCORE_def demoGame_eq
          demo_canvas)
  note A = one_outcome_per_bar [where e = demoEnv and s = ?S and s' = ?S' and delta = 16
      and rx = "0.5" and rb = "0.5"]
  note B = one_outcome_per_bar [where e = demoEnv and s = ?T and s' = ?T' and delta = 16
      and rx = "0.5" and rb = "0.5"]
  from A h1 have a: "bars ?S' = filter (kept demoEnv (player ?S)) (map fall (bars ?S)) \<and>
      score ?S' = score ?S + gain (player ?S) (map fall (bars ?S)) \<and>
      lives ?S' = lives ?S - loss demoEnv (player ?S) (map fall (bars ?S))"
    by blast
  from B h2 have b: "\<exists>k<length (bars ?T).
      bars ?T' = take k (bars ?T) @
          filter (kept demoEnv (player ?T)) (map fall (drop (Suc k) (bars ?T)))"
    by blast
  from h1 a h2 b show ?thesis by blast
qed


end
